theory Spec2Isabelle
  imports Main "HOL-Library.Multiset"
begin

section \<open>The environment of the downloader: file system and catalog\<close>

text \<open>
  Paths, URLs and file contents are strings (lists of bytes). A path of the file system
  holds nothing, a directory or a file with its bytes. Paths are built as the source
  builds them, by joining with a slash; \<open>pathlib\<close>'s treatment of absolute or empty
  components is outside the model, identifiers being non-empty relative names.
\<close>

type_synonym path = string

type_synonym bytes = string

datatype node = Dir | File bytes

type_synonym fs = "path \<rightharpoonup> node"

text \<open>
  What \<open>session.get(url)\<close> gives: the call raises (a transport error, with its message),
  or a response arrives with a status and a body; the body is \<open>Inl msg\<close> when
  \<open>response.read()\<close> raises and \<open>Inr content\<close> otherwise.
\<close>

datatype reply = GetRaises string | Reply nat "string + bytes"

text \<open>
  What writing a file does when it does not go through: \<open>open\<close> raises and nothing is
  created, or \<open>f.write\<close> raises after some bytes have reached the file.
\<close>

datatype write_fault = OpenFails string | WriteFails nat string

record env =
  http_get :: "string \<Rightarrow> reply"
  mkdir_error :: "path \<Rightarrow> string option"
  write_error :: "path \<Rightarrow> write_fault option"
  dir_st_size :: "path \<Rightarrow> nat"
  json_dump :: "string list \<Rightarrow> bytes"

text \<open>\<open>Path.mkdir(exist_ok=True)\<close>: an existing directory is left alone, an existing
  file raises, and creating a missing directory raises when the environment says so
  (missing parent, no permission).\<close>

definition mkdir_exist_ok :: "env \<Rightarrow> fs \<Rightarrow> path \<Rightarrow> string + fs" where
  "mkdir_exist_ok e fs p =
     (case fs p of
        Some Dir \<Rightarrow> Inr fs
      | Some (File c) \<Rightarrow> Inl ''FileExistsError''
      | None \<Rightarrow> (case mkdir_error e p of
                   Some msg \<Rightarrow> Inl msg
                 | None \<Rightarrow> Inr (fs(p \<mapsto> Dir))))"

text \<open>\<open>font_file.exists() and font_file.stat().st_size > 0\<close>.\<close>

definition exists_nonempty :: "env \<Rightarrow> fs \<Rightarrow> path \<Rightarrow> bool" where
  "exists_nonempty e fs p =
     (case fs p of
        None \<Rightarrow> False
      | Some Dir \<Rightarrow> 0 < dir_st_size e p
      | Some (File c) \<Rightarrow> 0 < length c)"

text \<open>\<open>with open(p, 'wb') as f: f.write(content)\<close>: the file system afterwards, and the
  message of the exception if one was raised. Opening truncates the file at \<open>p\<close> itself;
  a write that fails midway leaves the bytes written so far at \<open>p\<close>.\<close>

definition open_wb_write :: "env \<Rightarrow> fs \<Rightarrow> path \<Rightarrow> bytes \<Rightarrow> fs \<times> string option" where
  "open_wb_write e fs p content =
     (case fs p of
        Some Dir \<Rightarrow> (fs, Some ''IsADirectoryError'')
      | _ \<Rightarrow> (case write_error e p of
                None \<Rightarrow> (fs(p \<mapsto> File content), None)
              | Some (OpenFails msg) \<Rightarrow> (fs, Some msg)
              | Some (WriteFails k msg) \<Rightarrow> (fs(p \<mapsto> File (take k content)), Some msg)))"

section \<open>\<open>fontshare_downloader.py\<close>: class \<open>FontshareDownloader\<close>\<close>

record downloader =
  output_dir :: path
  max_concurrent :: int

definition base_url :: string where
  "base_url = ''https://api.fontshare.com/v2''"

definition fonts_dir :: "downloader \<Rightarrow> path" where
  "fonts_dir d = output_dir d @ ''/fonts''"

definition metadata_dir :: "downloader \<Rightarrow> path" where
  "metadata_dir d = output_dir d @ ''/metadata''"

definition download_url :: "string \<Rightarrow> string" where
  "download_url font_name = base_url @ ''/fonts/download/'' @ font_name"

definition font_dir :: "downloader \<Rightarrow> string \<Rightarrow> path" where
  "font_dir d font_name = fonts_dir d @ ''/'' @ font_name"

definition font_file :: "downloader \<Rightarrow> string \<Rightarrow> path" where
  "font_file d font_name = font_dir d font_name @ ''/'' @ font_name @ ''.zip''"

text \<open>
  The lines the logger receives, by message: \<open>Skipping n (already downloaded)\<close>,
  \<open>Downloaded n (k bytes)\<close>, \<open>Failed to download n: HTTP s\<close> and
  \<open>Error downloading n: e\<close>. What a call does besides returning is the list of its
  events, in order: requests issued, log lines, the rate-limit sleep.
\<close>

datatype log_line =
    Skipping string
  | Downloaded string nat
  | FailedHTTP string nat
  | ErrorDownloading string string

datatype event = Get string | Log log_line | Sleep

text \<open>\<open>download_font\<close>, the body under \<open>async with semaphore\<close>: the result, the file
  system afterwards and the events.\<close>

definition download_font :: "env \<Rightarrow> downloader \<Rightarrow> fs \<Rightarrow> string \<Rightarrow> bool \<times> fs \<times> event list" where
  "download_font e d fs font_name =
     (case mkdir_exist_ok e fs (font_dir d font_name) of
        Inl msg \<Rightarrow> (False, fs, [Log (ErrorDownloading font_name msg)])
      | Inr fs1 \<Rightarrow>
          if exists_nonempty e fs1 (font_file d font_name)
          then (True, fs1, [Log (Skipping font_name)])
          else (case http_get e (download_url font_name) of
                  GetRaises msg \<Rightarrow>
                    (False, fs1, [Get (download_url font_name), Log (ErrorDownloading font_name msg)])
                | Reply status body \<Rightarrow>
                    if status = 200
                    then (case body of
                            Inl msg \<Rightarrow>
                              (False, fs1,
                               [Get (download_url font_name), Log (ErrorDownloading font_name msg)])
                          | Inr content \<Rightarrow>
                              (case open_wb_write e fs1 (font_file d font_name) content of
                                 (fs2, Some msg) \<Rightarrow>
                                   (False, fs2,
                                    [Get (download_url font_name),
                                     Log (ErrorDownloading font_name msg)])
                               | (fs2, None) \<Rightarrow>
                                   (True, fs2,
                                    [Get (download_url font_name),
                                     Log (Downloaded font_name (length content)), Sleep])))
                    else (False, fs1,
                          [Get (download_url font_name), Log (FailedHTTP font_name status)])))"

text \<open>
  \<open>download_font\<close> gives up control only where it awaits: at \<open>session.get\<close> (and the
  reading of the body) and at the sleep. So a task runs in two pieces, each of them
  undivided. The first, when the task passes \<open>async with semaphore\<close>: the directory is
  made and the archive tested, and the task either returns at once (\<open>Some\<close> of its
  result) or issues its request (\<open>None\<close>).
\<close>

definition begin_download :: "env \<Rightarrow> downloader \<Rightarrow> fs \<Rightarrow> string \<Rightarrow> bool option \<times> fs \<times> event list" where
  "begin_download e d fs font_name =
     (case mkdir_exist_ok e fs (font_dir d font_name) of
        Inl msg \<Rightarrow> (Some False, fs, [Log (ErrorDownloading font_name msg)])
      | Inr fs1 \<Rightarrow>
          if exists_nonempty e fs1 (font_file d font_name)
          then (Some True, fs1, [Log (Skipping font_name)])
          else (None, fs1, [Get (download_url font_name)]))"

text \<open>The second piece, when the answer to the request is there: the body is written
  into the file system of that moment, or the failure is logged.\<close>

definition receive_reply :: "env \<Rightarrow> downloader \<Rightarrow> fs \<Rightarrow> string \<Rightarrow> bool \<times> fs \<times> event list" where
  "receive_reply e d fs font_name =
     (case http_get e (download_url font_name) of
        GetRaises msg \<Rightarrow> (False, fs, [Log (ErrorDownloading font_name msg)])
      | Reply status body \<Rightarrow>
          if status = 200
          then (case body of
                  Inl msg \<Rightarrow> (False, fs, [Log (ErrorDownloading font_name msg)])
                | Inr content \<Rightarrow>
                    (case open_wb_write e fs (font_file d font_name) content of
                       (fs2, Some msg) \<Rightarrow> (False, fs2, [Log (ErrorDownloading font_name msg)])
                     | (fs2, None) \<Rightarrow>
                         (True, fs2, [Log (Downloaded font_name (length content)), Sleep])))
          else (False, fs, [Log (FailedHTTP font_name status)]))"

text \<open>
  The tasks of one run. \<open>download_all_fonts\<close> creates a task for every entry of the
  list, and the tasks overlap: a task is pending before \<open>async with semaphore\<close>, has
  its request out, sleeps after its download, or has returned. The state of a run is
  the value of the semaphore, the file system, every task with its identifier, where it
  stands and its events so far, and \<open>results\<close>, which receives the result of each task
  when it returns, in the order of completion.
\<close>

datatype job_phase = Pending | Requested | Sleeping | Returned bool

record fetch =
  slots :: nat
  disk :: fs
  jobs :: "(string \<times> job_phase \<times> event list) list"
  results :: "bool list"

text \<open>
  What the event loop does next: it lets a pending task pass the semaphore, which
  needs a free slot; it hands a task the answer to its request; it ends the sleep of a
  task. A task that returns gives its slot back. A step that the state does not allow
  leaves the state as it is.
\<close>

datatype fetch_action = StartTask nat | ReplyArrives nat | SleepEnds nat

fun fetch_step :: "env \<Rightarrow> downloader \<Rightarrow> fetch_action \<Rightarrow> fetch \<Rightarrow> fetch" where
  "fetch_step e d (StartTask i) s =
     (if i < length (jobs s) \<and> 0 < slots s
      then (case jobs s ! i of
              (n, Pending, evs) \<Rightarrow>
                (case begin_download e d (disk s) n of
                   (Some r, fs1, evs1) \<Rightarrow>
                     s\<lparr>disk := fs1, jobs := (jobs s)[i := (n, Returned r, evs @ evs1)],
                       results := results s @ [r]\<rparr>
                 | (None, fs1, evs1) \<Rightarrow>
                     s\<lparr>slots := slots s - 1, disk := fs1,
                       jobs := (jobs s)[i := (n, Requested, evs @ evs1)]\<rparr>)
            | _ \<Rightarrow> s)
      else s)"
| "fetch_step e d (ReplyArrives i) s =
     (if i < length (jobs s)
      then (case jobs s ! i of
              (n, Requested, evs) \<Rightarrow>
                (case receive_reply e d (disk s) n of
                   (True, fs2, evs2) \<Rightarrow>
                     s\<lparr>disk := fs2, jobs := (jobs s)[i := (n, Sleeping, evs @ evs2)]\<rparr>
                 | (False, fs2, evs2) \<Rightarrow>
                     s\<lparr>slots := slots s + 1, disk := fs2,
                       jobs := (jobs s)[i := (n, Returned False, evs @ evs2)],
                       results := results s @ [False]\<rparr>)
            | _ \<Rightarrow> s)
      else s)"
| "fetch_step e d (SleepEnds i) s =
     (if i < length (jobs s)
      then (case jobs s ! i of
              (n, Sleeping, evs) \<Rightarrow>
                s\<lparr>slots := slots s + 1, jobs := (jobs s)[i := (n, Returned True, evs)],
                  results := results s @ [True]\<rparr>
            | _ \<Rightarrow> s)
      else s)"

fun fetch_run :: "env \<Rightarrow> downloader \<Rightarrow> fetch_action list \<Rightarrow> fetch \<Rightarrow> fetch" where
  "fetch_run e d [] s = s"
| "fetch_run e d (a # as) s = fetch_run e d as (fetch_step e d a s)"

definition fetch_init :: "downloader \<Rightarrow> fs \<Rightarrow> string list \<Rightarrow> fetch" where
  "fetch_init d fs font_list =
     \<lparr>slots = nat (max_concurrent d), disk = fs,
      jobs = map (\<lambda>n. (n, Pending, [])) font_list, results = []\<rparr>"

fun has_returned :: "string \<times> job_phase \<times> event list \<Rightarrow> bool" where
  "has_returned (n, Returned r, evs) = True"
| "has_returned (n, ph, evs) = False"

text \<open>An identifier is cached when its directory is there and the source's own test
  on its archive holds.\<close>

definition cached :: "env \<Rightarrow> downloader \<Rightarrow> fs \<Rightarrow> string \<Rightarrow> bool" where
  "cached e d fs n \<longleftrightarrow>
     fs (font_dir d n) = Some Dir \<and> exists_nonempty e fs (font_file d n)"

text \<open>
  What is known of a call after some steps of the event loop: it has raised, it is
  still waiting for its tasks, or it has returned.
\<close>

datatype 'a outcome = Raises string | Unfinished | Returns 'a

text \<open>
  \<open>download_all_fonts\<close>. The metadata file is written first (its text is the
  environment's \<open>json_dump\<close> of the list); \<open>asyncio.Semaphore\<close> refuses a negative
  value. Then the tasks run, by the steps of \<open>schedule\<close>. The loop over
  \<open>as_completed\<close> ends when every task has returned; until then the call waits (with
  a semaphore of zero and a font to fetch it waits for ever, no task being let in).
  The statistics are computed from \<open>results\<close>. The dictionary returned is an
  association list; it comes here with every task's identifier, result and events, and
  the file system.
\<close>

definition download_all_fonts ::
  "env \<Rightarrow> downloader \<Rightarrow> fs \<Rightarrow> string list \<Rightarrow> fetch_action list \<Rightarrow>
   ((string \<times> int) list \<times> (string \<times> bool \<times> event list) list \<times> fs) outcome" where
  "download_all_fonts e d fs font_list schedule =
     (case open_wb_write e fs (metadata_dir d @ ''/font-list.json'') (json_dump e font_list) of
        (fs0, Some msg) \<Rightarrow> Raises msg
      | (fs0, None) \<Rightarrow>
          if max_concurrent d < 0 then Raises ''Semaphore initial value must be >= 0''
          else (let s = fetch_run e d schedule (fetch_init d fs0 font_list)
                in if list_all has_returned (jobs s)
                   then (let success_count = int (length (filter (\<lambda>r. r) (results s)));
                             failed_count = int (length (results s)) - success_count
                         in Returns ([(''total'', int (length font_list)),
                                      (''success'', success_count),
                                      (''failed'', failed_count)],
                                     map (\<lambda>(n, ph, evs). (n, ph = Returned True, evs)) (jobs s),
                                     disk s))
                   else Unfinished))"

section \<open>\<open>fontshare_bulk_downloader.py\<close>: the sequential \<open>download_all_fonts\<close>\<close>

text \<open>
  The script downloads the fonts of its list one after the other. It prints where the
  class logs: \<open>Skipping n\<close> stands for \<open>(already exists)\<close>, \<open>Downloaded n k\<close> for the
  size line, \<open>FailedHTTP n s\<close> for \<open>HTTP s\<close> and \<open>ErrorDownloading n e\<close> for
  \<open>Error: e\<close>.
\<close>

record bulk_state =
  success_count :: int
  failed_fonts :: "string list"
  files :: fs
  trace :: "event list"

definition bulk_font_file :: "path \<Rightarrow> string \<Rightarrow> path" where
  "bulk_font_file out font_name = out @ ''/'' @ font_name @ ''/'' @ font_name @ ''.zip''"

text \<open>One pass of the loop body for the \<open>i\<close>-th font of \<open>len\<close>. \<open>continue\<close> in the
  skip branch also passes over the sleep at the end of the body.\<close>

definition bulk_iteration ::
  "env \<Rightarrow> path \<Rightarrow> nat \<Rightarrow> bulk_state \<Rightarrow> nat \<Rightarrow> string \<Rightarrow> bulk_state" where
  "bulk_iteration e out len st i font_name =
     (let rate = (if i < len then [Sleep] else []);
          failed = (\<lambda>fs evs. st\<lparr>failed_fonts := failed_fonts st @ [font_name], files := fs,
                                  trace := trace st @ evs @ rate\<rparr>)
      in case mkdir_exist_ok e (files st) (out @ ''/'' @ font_name) of
           Inl msg \<Rightarrow> failed (files st) [Log (ErrorDownloading font_name msg)]
         | Inr fs1 \<Rightarrow>
             if exists_nonempty e fs1 (bulk_font_file out font_name)
             then st\<lparr>success_count := success_count st + 1, files := fs1,
                     trace := trace st @ [Log (Skipping font_name)]\<rparr>
             else (case http_get e (download_url font_name) of
                     GetRaises msg \<Rightarrow>
                       failed fs1 [Get (download_url font_name),
                                   Log (ErrorDownloading font_name msg)]
                   | Reply status body \<Rightarrow>
                       if status = 200
                       then (case body of
                               Inl msg \<Rightarrow>
                                 failed fs1 [Get (download_url font_name),
                                             Log (ErrorDownloading font_name msg)]
                             | Inr content \<Rightarrow>
                                 (case open_wb_write e fs1 (bulk_font_file out font_name) content of
                                    (fs2, Some msg) \<Rightarrow>
                                      failed fs2 [Get (download_url font_name),
                                                  Log (ErrorDownloading font_name msg)]
                                  | (fs2, None) \<Rightarrow>
                                      st\<lparr>success_count := success_count st + 1, files := fs2,
                                         trace := trace st @
                                           [Get (download_url font_name),
                                            Log (Downloaded font_name (length content))] @ rate\<rparr>))
                       else failed fs1 [Get (download_url font_name),
                                        Log (FailedHTTP font_name status)]))"

fun bulk_loop :: "env \<Rightarrow> path \<Rightarrow> nat \<Rightarrow> nat \<Rightarrow> bulk_state \<Rightarrow> string list \<Rightarrow> bulk_state" where
  "bulk_loop e out len i st [] = st"
| "bulk_loop e out len i st (n # ns) =
     bulk_loop e out len (i + 1) (bulk_iteration e out len st i n) ns"

definition bulk_download_all_fonts :: "env \<Rightarrow> path \<Rightarrow> fs \<Rightarrow> string list \<Rightarrow> bulk_state" where
  "bulk_download_all_fonts e out fs fonts =
     bulk_loop e out (length fonts) 1
       \<lparr>success_count = 0, failed_fonts = [], files = fs, trace = []\<rparr> fonts"

section \<open>\<open>fontshare_downloader.py\<close>: the tasks of a run and their semaphore\<close>

text \<open>
  \<open>download_all_fonts\<close> creates one semaphore of value \<open>max_concurrent\<close> and one task
  per entry of the list; the whole body of \<open>download_font\<close> stands under
  \<open>async with semaphore\<close>. A task is waiting for the semaphore, has entered the body
  (directory made, archive tested), has its request in flight (\<open>session.get\<close> and the
  reading of the body), has received the answer (file written, rate-limit sleep), or has
  returned its result.
\<close>

datatype phase = Waiting | Entered | InFlight | Received | Done bool

record pool =
  sem :: nat
  phases :: "phase list"

text \<open>
  The steps the event loop can take for task \<open>i\<close>: it passes \<open>async with semaphore\<close>,
  which needs a free slot and takes it; it issues the request; the answer arrives; it
  leaves the \<open>async with\<close> block by one of the \<open>return\<close>s (after the skip, after the
  sleep, after a failure), which gives the slot back. A step that the state of the task
  or of the semaphore does not allow does not happen.
\<close>

datatype action = Acquire nat | Request nat | Response nat | Release nat bool


fun step :: "action \<Rightarrow> pool \<Rightarrow> pool option" where
  "step (Acquire i) s =
     (if i < length (phases s) \<and> phases s ! i = Waiting \<and> 0 < sem s
      then Some (s\<lparr>sem := sem s - 1, phases := (phases s)[i := Entered]\<rparr>) else None)"
| "step (Request i) s =
     (if i < length (phases s) \<and> phases s ! i = Entered
      then Some (s\<lparr>phases := (phases s)[i := InFlight]\<rparr>) else None)"
| "step (Response i) s =
     (if i < length (phases s) \<and> phases s ! i = InFlight
      then Some (s\<lparr>phases := (phases s)[i := Received]\<rparr>) else None)"
| "step (Release i b) s =
     (if i < length (phases s) \<and> (phases s ! i = Entered \<or> phases s ! i = Received)
      then Some (s\<lparr>sem := sem s + 1, phases := (phases s)[i := Done b]\<rparr>) else None)"

fun run :: "action list \<Rightarrow> pool \<Rightarrow> pool option" where
  "run [] s = Some s"
| "run (a # as) s = (case step a s of None \<Rightarrow> None | Some s' \<Rightarrow> run as s')"




section \<open>Paths of font files\<close>

text \<open>
  \<open>Path(p).name\<close> and \<open>Path(p).stem\<close> for paths written with slashes, as the names of
  archive entries are: the name is the last component that is neither empty nor a dot,
  the stem is the name without its last suffix.
\<close>

fun split_path :: "string \<Rightarrow> string list" where
  "split_path [] = [[]]"
| "split_path (c # cs) =
     (if c = CHR ''/'' then [] # split_path cs
      else (case split_path cs of
              [] \<Rightarrow> [[c]]
            | x # xs \<Rightarrow> (c # x) # xs))"

definition path_name :: "path \<Rightarrow> string" where
  "path_name p =
     (case rev (filter (\<lambda>x. x \<noteq> [] \<and> x \<noteq> ''.'') (split_path p)) of
        [] \<Rightarrow> []
      | x # xs \<Rightarrow> x)"

definition path_stem :: "path \<Rightarrow> string" where
  "path_stem p =
     (let name = path_name p;
          ext = takeWhile (\<lambda>c. c \<noteq> CHR ''.'') (rev name)
      in if CHR ''.'' \<in> set name \<and> ext \<noteq> [] \<and> length ext + 1 < length name
         then take (length name - length ext - 1) name
         else name)"

section \<open>The environment of the installers\<close>

text \<open>
  What the operating system answers to the installers: whether the user is an
  administrator (\<open>is_admin\<close>, which is \<open>False\<close> when the query raises), and for each call
  whether it raises and with what message. \<open>AddFontResourceW\<close> returns the number of
  fonts added.
\<close>

datatype hive = HKEY_CURRENT_USER | HKEY_LOCAL_MACHINE

record os =
  os_type :: string
  is_admin :: bool
  windll_error :: "string option"
  winreg_error :: "string option"
  copy2_error :: "path \<Rightarrow> path \<Rightarrow> string option"
  open_key_error :: "hive \<Rightarrow> string \<Rightarrow> string option"
  set_value_error :: "hive \<Rightarrow> string \<Rightarrow> string \<Rightarrow> string option"
  add_font_resource_w :: "path \<Rightarrow> string + int"
  send_message_error :: "string option"

record installer =
  system_fonts :: path
  user_fonts :: path

text \<open>The lines the installers print or log, by message, and the calls they make.\<close>

datatype message =
    RegistryInstallFailed string string
  | SystemInstallFailed string string
  | AddFontResourceFailed string
  | WinAPIInstallFailed string string
  | FailedOnWindows string string
  | FailedToCopy string string
  | TryingSimpleCopy string
  | CopiedTo path
  | Registered string
  | RegistryRegistrationFailed string
  | AddedFontResource string
  | AddFontResourceRaised string
  | FailedToInstall string string
  | FailedToExtract string string
  | Processing string
  | NoFontFilesFound string
  | InstalledFont string
  | FailedFont string
  | Installing string

datatype os_event =
    Copy2 path path
  | OpenKey hive string
  | SetValueEx hive string string string
  | AddFontResourceW path
  | SendMessageW
  | Says message

text \<open>A \<open>try\<close> block of calls in sequence: each call is made, and the first that raises
  ends the block with its message.\<close>

fun try_calls :: "(os_event \<times> string option) list \<Rightarrow> os_event list \<times> string option" where
  "try_calls [] = ([], None)"
| "try_calls ((ev, err) # cs) =
     (case err of
        Some msg \<Rightarrow> ([ev], Some msg)
      | None \<Rightarrow> (case try_calls cs of (evs, r) \<Rightarrow> (ev # evs, r)))"

section \<open>\<open>proper_font_installer.py\<close>: class \<open>WindowsFontInstaller\<close>\<close>

text \<open>The registry keys, \<open>Software\<close> or \<open>SOFTWARE\<close> followed by
  \<open>Microsoft\<close>, \<open>Windows NT\<close>, \<open>CurrentVersion\<close>, \<open>Fonts\<close>, joined by backslashes.\<close>

definition key_path :: "string \<Rightarrow> string" where
  "key_path root =
     root @ [CHR 0x5C] @ ''Microsoft'' @ [CHR 0x5C] @ ''Windows NT'' @ [CHR 0x5C] @
     ''CurrentVersion'' @ [CHR 0x5C] @ ''Fonts''"

definition user_key_path :: string where
  "user_key_path = key_path ''Software''"

definition system_key_path :: string where
  "system_key_path = key_path ''SOFTWARE''"

definition install_font_user_method :: "os \<Rightarrow> installer \<Rightarrow> path \<Rightarrow> bool \<times> os_event list" where
  "install_font_user_method w ins font_path =
     (let dest_path = user_fonts ins @ ''/'' @ path_name font_path;
          font_name = path_stem font_path
      in case try_calls
           [(Copy2 font_path dest_path, copy2_error w font_path dest_path),
            (OpenKey HKEY_CURRENT_USER user_key_path,
             open_key_error w HKEY_CURRENT_USER user_key_path),
            (SetValueEx HKEY_CURRENT_USER user_key_path (font_name @ '' (TrueType)'') dest_path,
             set_value_error w HKEY_CURRENT_USER (font_name @ '' (TrueType)'') dest_path)] of
           (evs, None) \<Rightarrow> (True, evs)
         | (evs, Some msg) \<Rightarrow>
             (False, evs @ [Says (RegistryInstallFailed (path_name font_path) msg)]))"

definition install_font_system_method :: "os \<Rightarrow> installer \<Rightarrow> path \<Rightarrow> bool \<times> os_event list" where
  "install_font_system_method w ins font_path =
     (let dest_path = system_fonts ins @ ''/'' @ path_name font_path;
          font_name = path_stem font_path
      in case try_calls
           [(Copy2 font_path dest_path, copy2_error w font_path dest_path),
            (OpenKey HKEY_LOCAL_MACHINE system_key_path,
             open_key_error w HKEY_LOCAL_MACHINE system_key_path),
            (SetValueEx HKEY_LOCAL_MACHINE system_key_path (font_name @ '' (TrueType)'')
               (path_name font_path),
             set_value_error w HKEY_LOCAL_MACHINE (font_name @ '' (TrueType)'')
               (path_name font_path))] of
           (evs, None) \<Rightarrow> (True, evs)
         | (evs, Some msg) \<Rightarrow>
             (False, evs @ [Says (SystemInstallFailed (path_name font_path) msg)]))"

definition install_font_winapi_method :: "os \<Rightarrow> installer \<Rightarrow> path \<Rightarrow> bool \<times> os_event list" where
  "install_font_winapi_method w ins font_path =
     (let name = path_name font_path;
          dest_path = (if is_admin w then system_fonts ins else user_fonts ins) @ ''/'' @ name
      in case windll_error w of
           Some msg \<Rightarrow> (False, [Says (WinAPIInstallFailed name msg)])
         | None \<Rightarrow>
             (case copy2_error w font_path dest_path of
                Some msg \<Rightarrow>
                  (False, [Copy2 font_path dest_path, Says (WinAPIInstallFailed name msg)])
              | None \<Rightarrow>
                  (case add_font_resource_w w dest_path of
                     Inl msg \<Rightarrow>
                       (False, [Copy2 font_path dest_path, AddFontResourceW dest_path,
                                Says (WinAPIInstallFailed name msg)])
                   | Inr result \<Rightarrow>
                       if result > 0
                       then (case send_message_error w of
                               Some msg \<Rightarrow>
                                 (False, [Copy2 font_path dest_path, AddFontResourceW dest_path,
                                          SendMessageW, Says (WinAPIInstallFailed name msg)])
                             | None \<Rightarrow>
                                 (True, [Copy2 font_path dest_path, AddFontResourceW dest_path,
                                         SendMessageW]))
                       else (False, [Copy2 font_path dest_path, AddFontResourceW dest_path,
                                     Says (AddFontResourceFailed name)]))))"

text \<open>\<open>install_font\<close>: the WinAPI method, then the user registry method, then, for an
  administrator, the system method.\<close>

definition install_font :: "os \<Rightarrow> installer \<Rightarrow> path \<Rightarrow> bool \<times> os_event list" where
  "install_font w ins font_path =
     (case install_font_winapi_method w ins font_path of
        (True, evs1) \<Rightarrow> (True, evs1)
      | (False, evs1) \<Rightarrow>
          (case install_font_user_method w ins font_path of
             (True, evs2) \<Rightarrow> (True, evs1 @ evs2)
           | (False, evs2) \<Rightarrow>
               if is_admin w
               then (case install_font_system_method w ins font_path of
                       (True, evs3) \<Rightarrow> (True, evs1 @ evs2 @ evs3)
                     | (False, evs3) \<Rightarrow> (False, evs1 @ evs2 @ evs3))
               else (False, evs1 @ evs2)))"

section \<open>\<open>install_fonts.py\<close>: class \<open>FontInstaller\<close>\<close>

text \<open>
  The installer has one font directory, \<open>system_font_dir\<close>, chosen by platform; it is
  the \<open>system_fonts\<close> field here. \<open>install_font_windows\<close> catches every exception of its
  body itself; its result is \<open>Inr\<close> of the boolean it returns, \<open>Inl\<close> standing for an
  exception that leaves it.
\<close>

definition install_font_windows :: "os \<Rightarrow> installer \<Rightarrow> path \<Rightarrow> (string + bool) \<times> os_event list" where
  "install_font_windows w ins font_path =
     (let dest_path = system_fonts ins @ ''/'' @ path_name font_path;
          font_name = path_stem font_path
      in case winreg_error w of
           Some msg \<Rightarrow> (Inr False, [Says (FailedOnWindows (path_name font_path) msg)])
         | None \<Rightarrow>
             (case try_calls
                [(Copy2 font_path dest_path, copy2_error w font_path dest_path),
                 (OpenKey HKEY_LOCAL_MACHINE system_key_path,
                  open_key_error w HKEY_LOCAL_MACHINE system_key_path),
                 (SetValueEx HKEY_LOCAL_MACHINE system_key_path (font_name @ '' (TrueType)'')
                    (path_name font_path),
                  set_value_error w HKEY_LOCAL_MACHINE (font_name @ '' (TrueType)'')
                    (path_name font_path))] of
                (evs, None) \<Rightarrow> (Inr True, evs)
              | (evs, Some msg) \<Rightarrow>
                  (Inr False, evs @ [Says (FailedOnWindows (path_name font_path) msg)])))"

definition install_font_simple_copy :: "os \<Rightarrow> installer \<Rightarrow> path \<Rightarrow> bool \<times> os_event list" where
  "install_font_simple_copy w ins font_path =
     (let dest_path = system_fonts ins @ ''/'' @ path_name font_path
      in case copy2_error w font_path dest_path of
           None \<Rightarrow> (True, [Copy2 font_path dest_path])
         | Some msg \<Rightarrow>
             (False, [Copy2 font_path dest_path, Says (FailedToCopy (path_name font_path) msg)]))"

text \<open>\<open>install_font\<close> of \<open>install_fonts.py\<close>: on Windows the result of
  \<open>install_font_windows\<close> is returned, and the \<open>except\<close> branch with the simple copy runs
  when an exception comes out of that call.\<close>

definition fi_install_font :: "os \<Rightarrow> installer \<Rightarrow> path \<Rightarrow> bool \<times> os_event list" where
  "fi_install_font w ins font_path =
     (if os_type w = ''windows''
      then (case install_font_windows w ins font_path of
              (Inr b, evs) \<Rightarrow> (b, evs)
            | (Inl msg, evs) \<Rightarrow>
                (case install_font_simple_copy w ins font_path of
                   (b, evs2) \<Rightarrow> (b, evs @ [Says (TryingSimpleCopy (path_name font_path))] @ evs2)))
      else install_font_simple_copy w ins font_path)"

section \<open>\<open>advanced_font_installer.py\<close>: class \<open>AdvancedFontInstaller\<close>\<close>

text \<open>
  \<open>register_font_in_registry\<close> opens the key and tries the names of \<open>registry_names\<close>
  in turn until one value is set; \<open>add_font_resource\<close> calls \<open>AddFontResourceW\<close>;
  \<open>install_single_font\<close> copies the file, calls both and returns \<open>True\<close>.
\<close>

definition registry_names :: "string \<Rightarrow> string list" where
  "registry_names font_name =
     [font_name @ '' (TrueType)'', font_name @ '' (OpenType)'', font_name,
      font_name @ '' Regular (TrueType)'', font_name @ '' Regular (OpenType)'']"

fun set_first_value :: "os \<Rightarrow> hive \<Rightarrow> string \<Rightarrow> string list \<Rightarrow> os_event list" where
  "set_first_value w h font_value [] = []"
| "set_first_value w h font_value (reg_name # rest) =
     (case set_value_error w h reg_name font_value of
        None \<Rightarrow> [SetValueEx h system_key_path reg_name font_value, Says (Registered reg_name)]
      | Some msg \<Rightarrow>
          SetValueEx h system_key_path reg_name font_value # set_first_value w h font_value rest)"

definition register_font_in_registry ::
  "os \<Rightarrow> path \<Rightarrow> string \<Rightarrow> bool \<Rightarrow> bool \<times> os_event list" where
  "register_font_in_registry w font_path font_name is_system =
     (let hkey = (if is_system then HKEY_LOCAL_MACHINE else HKEY_CURRENT_USER);
          font_value = (if is_system then path_name font_path else font_path)
      in case winreg_error w of
           Some msg \<Rightarrow> (False, [Says (RegistryRegistrationFailed msg)])
         | None \<Rightarrow>
             (case open_key_error w hkey system_key_path of
                Some msg \<Rightarrow>
                  (False, [OpenKey hkey system_key_path, Says (RegistryRegistrationFailed msg)])
              | None \<Rightarrow>
                  (True, OpenKey hkey system_key_path #
                         set_first_value w hkey font_value (registry_names font_name))))"

definition add_font_resource :: "os \<Rightarrow> path \<Rightarrow> bool \<times> os_event list" where
  "add_font_resource w font_path =
     (case windll_error w of
        Some msg \<Rightarrow> (False, [Says (AddFontResourceRaised msg)])
      | None \<Rightarrow>
          (case add_font_resource_w w font_path of
             Inl msg \<Rightarrow> (False, [AddFontResourceW font_path, Says (AddFontResourceRaised msg)])
           | Inr result \<Rightarrow>
               if result > 0
               then (case send_message_error w of
                       Some msg \<Rightarrow>
                         (False, [AddFontResourceW font_path, SendMessageW,
                                  Says (AddFontResourceRaised msg)])
                     | None \<Rightarrow>
                         (True, [AddFontResourceW font_path, SendMessageW,
                                 Says (AddedFontResource (path_name font_path))]))
               else (False, [AddFontResourceW font_path])))"

definition install_single_font ::
  "os \<Rightarrow> installer \<Rightarrow> path \<Rightarrow> path \<Rightarrow> string \<Rightarrow> bool \<times> os_event list" where
  "install_single_font w ins font_path target_dir font_name =
     (let dest_path = target_dir @ ''/'' @ path_name font_path
      in case copy2_error w font_path dest_path of
           Some msg \<Rightarrow>
             (False, [Copy2 font_path dest_path, Says (FailedToInstall (path_name font_path) msg)])
         | None \<Rightarrow>
             (let is_system = (target_dir = system_fonts ins);
                  (registry_success, evs1) = register_font_in_registry w dest_path font_name is_system;
                  (api_success, evs2) = add_font_resource w dest_path
              in (True, [Copy2 font_path dest_path, Says (CopiedTo dest_path)] @ evs1 @ evs2)))"

section \<open>Archives and the extraction of font files\<close>

text \<open>
  An archive either cannot be opened, or lists its entries. The payload of an entry is
  \<open>Inr\<close> of its bytes, or \<open>Inl\<close> of the message with which reading or extracting that
  entry raises.
\<close>

record zip_entry =
  filename :: string
  payload :: "string + bytes"

datatype archive = BadZip string | Zip "zip_entry list"

text \<open>\<open>str.lower\<close> on the letters of ASCII, and \<open>str.endswith\<close>.\<close>

definition lower_char :: "char \<Rightarrow> char" where
  "lower_char c =
     (case map_of (zip ''ABCDEFGHIJKLMNOPQRSTUVWXYZ'' ''abcdefghijklmnopqrstuvwxyz'') c of
        Some l \<Rightarrow> l
      | None \<Rightarrow> c)"

definition lower :: "string \<Rightarrow> string" where
  "lower s = map lower_char s"

definition endswith :: "string \<Rightarrow> string \<Rightarrow> bool" where
  "endswith s ext \<longleftrightarrow> length ext \<le> length s \<and> drop (length s - length ext) s = ext"

text \<open>\<open>any(file_info.filename.lower().endswith(ext) for ext in font_extensions)\<close>.\<close>

definition is_font :: "string list \<Rightarrow> string \<Rightarrow> bool" where
  "is_font font_extensions fn = list_ex (\<lambda>ext. endswith (lower fn) ext) font_extensions"

definition fi_font_extensions :: "string list" where
  "fi_font_extensions = [''.ttf'', ''.otf'', ''.woff'', ''.woff2'', ''.eot'']"

definition ttf_otf :: "string list" where
  "ttf_otf = [''.ttf'', ''.otf'']"

text \<open>
  Where \<open>ZipFile.extract(member, path)\<close> puts a member: under \<open>path\<close>, at the member's
  name without its empty, \<open>.\<close> and \<open>..\<close> components. (The further replacements that
  \<open>zipfile\<close> makes on Windows are outside the model.)
\<close>

fun join_path :: "string list \<Rightarrow> string" where
  "join_path [] = []"
| "join_path [x] = x"
| "join_path (x # y # ys) = x @ ''/'' @ join_path (y # ys)"

definition arcname :: "string \<Rightarrow> string list" where
  "arcname fn = filter (\<lambda>x. x \<noteq> [] \<and> x \<noteq> ''.'' \<and> x \<noteq> ''..'') (split_path fn)"

definition extract_path :: "path \<Rightarrow> string \<Rightarrow> path" where
  "extract_path temp_dir fn = temp_dir @ ''/'' @ join_path (arcname fn)"

text \<open>
  The loop of \<open>extract_fonts_from_zip\<close> over \<open>infolist()\<close>: the paths extracted so far,
  and the message of the exception that ended the loop, if any.
\<close>

fun extract_entries :: "path \<Rightarrow> string list \<Rightarrow> zip_entry list \<Rightarrow> path list \<times> string option" where
  "extract_entries temp_dir exts [] = ([], None)"
| "extract_entries temp_dir exts (file_info # rest) =
     (if is_font exts (filename file_info)
      then (case payload file_info of
              Inl msg \<Rightarrow> ([], Some msg)
            | Inr content \<Rightarrow>
                (case extract_entries temp_dir exts rest of
                   (font_files, r) \<Rightarrow> (extract_path temp_dir (filename file_info) # font_files, r)))
      else extract_entries temp_dir exts rest)"

text \<open>\<open>extract_fonts_from_zip\<close>: the list returned, whether or not an exception was
  caught on the way, and the error line if one was.\<close>

definition extract_fonts_from_zip ::
  "path \<Rightarrow> string list \<Rightarrow> path \<Rightarrow> archive \<Rightarrow> path list \<times> os_event list" where
  "extract_fonts_from_zip temp_dir exts zip_path a =
     (case a of
        BadZip msg \<Rightarrow> ([], [Says (FailedToExtract zip_path msg)])
      | Zip entries \<Rightarrow>
          (case extract_entries temp_dir exts entries of
             (font_files, None) \<Rightarrow> (font_files, [])
           | (font_files, Some msg) \<Rightarrow> (font_files, [Says (FailedToExtract zip_path msg)])))"

section \<open>\<open>install_fonts.py\<close>: \<open>install_all_fonts\<close>\<close>

record install_stats =
  processed :: int
  installed :: int
  failed :: int
  said :: "os_event list"

text \<open>The inner loop: every font file is installed, and \<open>zip_success\<close> is whether all
  were.\<close>

fun install_each :: "os \<Rightarrow> installer \<Rightarrow> path list \<Rightarrow> bool \<times> os_event list" where
  "install_each w ins [] = (True, [])"
| "install_each w ins (file # rest) =
     (case fi_install_font w ins file of
        (ok, evs) \<Rightarrow>
          (case install_each w ins rest of
             (zip_success, evs') \<Rightarrow>
               (ok \<and> zip_success,
                evs @ [Says (if ok then InstalledFont (path_name file)
                             else FailedFont (path_name file))] @ evs')))"

text \<open>One pass of the outer loop, for one archive.\<close>

definition install_zip ::
  "os \<Rightarrow> installer \<Rightarrow> path \<Rightarrow> install_stats \<Rightarrow> path \<times> archive \<Rightarrow> install_stats" where
  "install_zip w ins temp_dir stats z =
     (case z of (zip_path, a) \<Rightarrow>
        (case extract_fonts_from_zip temp_dir fi_font_extensions zip_path a of
           (font_files, evs) \<Rightarrow>
             if font_files = []
             then stats\<lparr>processed := processed stats + 1, failed := failed stats + 1,
                        said := said stats @ [Says (Processing (path_name zip_path))] @ evs @
                                [Says (NoFontFilesFound (path_name zip_path))]\<rparr>
             else (case install_each w ins font_files of
                     (zip_success, evs') \<Rightarrow>
                       if zip_success
                       then stats\<lparr>processed := processed stats + 1,
                                  installed := installed stats + 1,
                                  said := said stats @ [Says (Processing (path_name zip_path))] @
                                          evs @ evs'\<rparr>
                       else stats\<lparr>processed := processed stats + 1,
                                  failed := failed stats + 1,
                                  said := said stats @ [Says (Processing (path_name zip_path))] @
                                          evs @ evs'\<rparr>)))"

definition install_all_fonts ::
  "os \<Rightarrow> installer \<Rightarrow> path \<Rightarrow> (path \<times> archive) list \<Rightarrow> install_stats" where
  "install_all_fonts w ins temp_dir zip_files =
     foldl (install_zip w ins temp_dir)
       \<lparr>processed = 0, installed = 0, failed = 0, said = []\<rparr> zip_files"

section \<open>\<open>proper_font_installer.py\<close>: \<open>run\<close>\<close>

record run_state =
  run_success_count :: int
  total_fonts :: int
  printed :: "os_event list"

fun install_package :: "os \<Rightarrow> installer \<Rightarrow> path list \<Rightarrow> bool \<times> os_event list" where
  "install_package w ins [] = (True, [])"
| "install_package w ins (file # rest) =
     (case install_font w ins file of
        (ok, evs) \<Rightarrow>
          (case install_package w ins rest of
             (package_success, evs') \<Rightarrow>
               (ok \<and> package_success,
                evs @ [Says (if ok then InstalledFont (path_name file)
                             else FailedFont (path_name file))] @ evs')))"

text \<open>One pass of the loop of \<open>run\<close> over the archives found: the package is
  announced; a package without font files is reported and passed over.\<close>

definition run_zip ::
  "os \<Rightarrow> installer \<Rightarrow> path \<Rightarrow> run_state \<Rightarrow> path \<times> archive \<Rightarrow> run_state" where
  "run_zip w ins temp_dir st z =
     (case z of (zip_file, a) \<Rightarrow>
        (case extract_fonts_from_zip temp_dir ttf_otf zip_file a of
           (font_files, evs) \<Rightarrow>
             if font_files = []
             then st\<lparr>printed := printed st @ [Says (Installing (path_stem zip_file))] @ evs @
                                  [Says (NoFontFilesFound (path_stem zip_file))]\<rparr>
             else (case install_package w ins font_files of
                     (package_success, evs') \<Rightarrow>
                       st\<lparr>run_success_count := run_success_count st + (if package_success then 1 else 0),
                          total_fonts := total_fonts st + int (length font_files),
                          printed := printed st @ [Says (Installing (path_stem zip_file))] @
                                     evs @ evs'\<rparr>)))"

definition run_zips :: "os \<Rightarrow> installer \<Rightarrow> path \<Rightarrow> (path \<times> archive) list \<Rightarrow> run_state" where
  "run_zips w ins temp_dir zip_files =
     foldl (run_zip w ins temp_dir) \<lparr>run_success_count = 0, total_fonts = 0, printed = []\<rparr> zip_files"

section \<open>\<open>extract_all_fonts.py\<close>: the extraction loop of \<open>main\<close>\<close>

text \<open>
  For one archive: every entry whose lower-cased name ends with \<open>.ttf\<close> or \<open>.otf\<close> is
  read and written to the user font directory under \<open>Path(file_info.filename).name\<close>.
  The result is the list of files written, with their bytes, and the message of the
  exception that ended the loop, if any.
\<close>

fun extract_all_entries :: "path \<Rightarrow> zip_entry list \<Rightarrow> (path \<times> bytes) list \<times> string option" where
  "extract_all_entries user_dir [] = ([], None)"
| "extract_all_entries user_dir (file_info # rest) =
     (if is_font ttf_otf (filename file_info)
      then (case payload file_info of
              Inl msg \<Rightarrow> ([], Some msg)
            | Inr font_content \<Rightarrow>
                (case extract_all_entries user_dir rest of
                   (written, r) \<Rightarrow>
                     ((user_dir @ ''/'' @ path_name (filename file_info), font_content) # written, r)))
      else extract_all_entries user_dir rest)"

section \<open>\<open>fontshare_downloader.py\<close>: discovery\<close>

text \<open>The values \<open>response.json()\<close> and \<open>json.loads\<close> return (numbers are
  integers here), with Python's truth value of each, \<open>dict.get\<close> and \<open>or\<close>.\<close>

datatype json =
    JNull
  | JBool bool
  | JNum int
  | JStr string
  | JList "json list"
  | JDict "(string \<times> json) list"

fun truthy :: "json \<Rightarrow> bool" where
  "truthy JNull = False"
| "truthy (JBool b) = b"
| "truthy (JNum n) = (n \<noteq> 0)"
| "truthy (JStr s) = (s \<noteq> [])"
| "truthy (JList xs) = (xs \<noteq> [])"
| "truthy (JDict kvs) = (kvs \<noteq> [])"

definition dict_get :: "(string \<times> json) list \<Rightarrow> string \<Rightarrow> json" where
  "dict_get kvs k = (case map_of kvs k of None \<Rightarrow> JNull | Some v \<Rightarrow> v)"

definition py_or :: "json \<Rightarrow> json \<Rightarrow> json" where
  "py_or a b = (if truthy a then a else b)"

text \<open>\<open>name.lower().replace(' ', '-')\<close>.\<close>

definition normalize :: "string \<Rightarrow> string" where
  "normalize name = map (\<lambda>c. if c = CHR '' '' then CHR ''-'' else c) (lower name)"

text \<open>
  \<open>key in data\<close> and \<open>data[key]\<close>: membership among the keys of a dictionary, the
  items of a list or the substrings of a string, and a \<open>TypeError\<close> for the rest;
  subscription by a string works on a dictionary only.
\<close>

fun contains :: "string \<Rightarrow> string \<Rightarrow> bool" where
  "contains [] key = (key = [])"
| "contains (c # cs) key = (take (length key) (c # cs) = key \<or> contains cs key)"

definition key_in :: "string \<Rightarrow> json \<Rightarrow> string + bool" where
  "key_in key data =
     (case data of
        JDict kvs \<Rightarrow> Inr (key \<in> fst ` set kvs)
      | JList xs \<Rightarrow> Inr (JStr key \<in> set xs)
      | JStr s \<Rightarrow> Inr (contains s key)
      | _ \<Rightarrow> Inl ''TypeError'')"

definition subscript :: "json \<Rightarrow> string \<Rightarrow> string + json" where
  "subscript data key =
     (case data of
        JDict kvs \<Rightarrow> (case map_of kvs key of None \<Rightarrow> Inl ''KeyError'' | Some v \<Rightarrow> Inr v)
      | _ \<Rightarrow> Inl ''TypeError'')"

text \<open>
  \<open>_extract_font_names\<close>: the inner loop over the entries of one collection, and the
  loop over the keys. The result is \<open>Inl\<close> when an exception leaves the function (a
  name that is not a string has no \<open>lower\<close>).
\<close>

fun names_of :: "json list \<Rightarrow> string + string list" where
  "names_of [] = Inr []"
| "names_of (font # rest) =
     (case font of
        JDict kvs \<Rightarrow>
          (let name = py_or (dict_get kvs ''slug'') (py_or (dict_get kvs ''name'') (dict_get kvs ''id''))
           in if truthy name
              then (case name of
                      JStr s \<Rightarrow>
                        (case names_of rest of
                           Inl err \<Rightarrow> Inl err
                         | Inr fonts \<Rightarrow> Inr (normalize s # fonts))
                    | _ \<Rightarrow> Inl ''AttributeError'')
              else names_of rest)
      | JStr s \<Rightarrow>
          (case names_of rest of
             Inl err \<Rightarrow> Inl err
           | Inr fonts \<Rightarrow> Inr (normalize s # fonts))
      | _ \<Rightarrow> names_of rest)"

fun extract_keys :: "json \<Rightarrow> string list \<Rightarrow> string + string list" where
  "extract_keys data [] = Inr []"
| "extract_keys data (key # keys) =
     (case key_in key data of
        Inl err \<Rightarrow> Inl err
      | Inr False \<Rightarrow> extract_keys data keys
      | Inr True \<Rightarrow>
          (case subscript data key of
             Inl err \<Rightarrow> Inl err
           | Inr font_data \<Rightarrow>
               (case font_data of
                  JList items \<Rightarrow>
                    (case names_of items of
                       Inl err \<Rightarrow> Inl err
                     | Inr fonts \<Rightarrow>
                         (case extract_keys data keys of
                            Inl err \<Rightarrow> Inl err
                          | Inr others \<Rightarrow> Inr (fonts @ others)))
                | _ \<Rightarrow> extract_keys data keys)))"

definition extract_font_names :: "json \<Rightarrow> string + string list" where
  "extract_font_names data = extract_keys data [''fonts'', ''data'', ''items'', ''results'']"

text \<open>
  What the network answers during discovery: a request raises, or a response arrives
  with its status and its decoded body (\<open>Inl\<close> when decoding raises). Of the catalog
  page the model keeps what the two regular expressions of \<open>_parse_fonts_from_html\<close>
  find: for every match of the JSON pattern the value \<open>json.loads\<close> gives for it
  (\<open>Inl\<close> for a \<open>JSONDecodeError\<close>), and the names captured by the \<open>href\<close> pattern.
  \<open>font_list_module\<close> is the pair \<open>FONTSHARE_FONTS\<close>, \<open>POTENTIAL_FONTS\<close> of the module
  \<open>font_list\<close>, or \<open>None\<close> when importing it fails; \<open>head_status\<close> is the status of
  \<open>requests.head\<close>, \<open>None\<close> when it raises.
\<close>

datatype 'a http = Raising string | Answer nat "string + 'a"

record page =
  json_matches :: "(string + json) list"
  href_candidates :: "string list"

record web =
  api_get :: "string \<Rightarrow> json http"
  site_get :: "string \<Rightarrow> page http"
  font_list_module :: "(string list \<times> string list) option"
  head_status :: "string \<Rightarrow> nat option"

definition api_endpoints :: "string list" where
  "api_endpoints =
     [base_url @ ''/fonts'', base_url @ ''/fonts/list'', ''https://www.fontshare.com/api/fonts'']"

definition website_url :: string where
  "website_url = ''https://www.fontshare.com''"

fun try_endpoints :: "web \<Rightarrow> string list \<Rightarrow> string list option" where
  "try_endpoints e [] = None"
| "try_endpoints e (endpoint # rest) =
     (case api_get e endpoint of
        Raising msg \<Rightarrow> try_endpoints e rest
      | Answer status body \<Rightarrow>
          if status = 200
          then (case body of
                  Inl msg \<Rightarrow> try_endpoints e rest
                | Inr data \<Rightarrow>
                    (case extract_font_names data of
                       Inl msg \<Rightarrow> try_endpoints e rest
                     | Inr fonts \<Rightarrow> if fonts \<noteq> [] then Some fonts else try_endpoints e rest))
          else try_endpoints e rest)"

definition try_api_discovery :: "web \<Rightarrow> string list option" where
  "try_api_discovery e = try_endpoints e api_endpoints"

text \<open>\<open>_parse_fonts_from_html\<close>; \<open>list(set(fonts))\<close> keeps one of each name, in an
  order of its own.\<close>

fun first_json_fonts :: "(string + json) list \<Rightarrow> string + string list option" where
  "first_json_fonts [] = Inr None"
| "first_json_fonts (m # rest) =
     (case m of
        Inl decode_error \<Rightarrow> first_json_fonts rest
      | Inr data \<Rightarrow>
          (case extract_font_names (JDict [(''fonts'', data)]) of
             Inl err \<Rightarrow> Inl err
           | Inr fonts \<Rightarrow> if fonts \<noteq> [] then Inr (Some fonts) else first_json_fonts rest))"

definition startswith :: "string \<Rightarrow> string \<Rightarrow> bool" where
  "startswith s pre \<longleftrightarrow> take (length pre) s = pre"

definition parse_fonts_from_html :: "page \<Rightarrow> string + string list" where
  "parse_fonts_from_html html =
     (case first_json_fonts (json_matches html) of
        Inl err \<Rightarrow> Inl err
      | Inr (Some fonts) \<Rightarrow> Inr fonts
      | Inr None \<Rightarrow>
          Inr (remdups (filter (\<lambda>name. 2 < length name \<and> CHR ''-'' \<in> set name \<and>
                                        \<not> startswith name ''www'')
                         (href_candidates html))))"

definition try_website_parsing :: "web \<Rightarrow> string list option" where
  "try_website_parsing e =
     (case site_get e website_url of
        Raising msg \<Rightarrow> None
      | Answer status body \<Rightarrow>
          if status = 200
          then (case body of
                  Inl msg \<Rightarrow> None
                | Inr html \<Rightarrow>
                    (case parse_fonts_from_html html of
                       Inl msg \<Rightarrow> None
                     | Inr fonts \<Rightarrow> Some fonts))
          else None)"

definition test_font_availability :: "web \<Rightarrow> string \<Rightarrow> bool" where
  "test_font_availability e font_name =
     (head_status e (base_url @ ''/fonts/download/'' @ font_name) = Some 200)"

definition builtin_fonts :: "string list" where
  "builtin_fonts =
     [''satoshi'', ''cabinet-grotesk'', ''clash-display'', ''general-sans'',
      ''switzer'', ''clash-grotesk'', ''supreme'', ''author'', ''zodiak'',
      ''eiko'', ''fraktion'', ''sohne'', ''chillax'']"

definition get_fallback_fonts :: "web \<Rightarrow> string list" where
  "get_fallback_fonts e =
     (case font_list_module e of
        None \<Rightarrow> builtin_fonts
      | Some (FONTSHARE_FONTS, POTENTIAL_FONTS) \<Rightarrow>
          FONTSHARE_FONTS @ filter (test_font_availability e) (take 10 POTENTIAL_FONTS))"

text \<open>\<open>discover_fonts\<close>: the API, then the website, then the fallback list; a result
  counts when it is a non-empty list.\<close>

definition discover_fonts :: "web \<Rightarrow> string list" where
  "discover_fonts e =
     (case try_api_discovery e of
        Some (f # fs) \<Rightarrow> f # fs
      | _ \<Rightarrow>
          (case try_website_parsing e of
             Some (f # fs) \<Rightarrow> f # fs
           | _ \<Rightarrow> get_fallback_fonts e))"

section \<open>Notions and concrete inputs of the properties\<close>

text \<open>A catalog that serves every archive, one that answers 404 to every request,
  and one whose disk fills up after two bytes of every file.\<close>

definition env_ok :: env where
  "env_ok = \<lparr>http_get = (\<lambda>u. Reply 200 (Inr ''PK34'')), mkdir_error = (\<lambda>p. None),
             write_error = (\<lambda>p. None), dir_st_size = (\<lambda>p. 4096),
             json_dump = (\<lambda>ns. concat ns)\<rparr>"

definition env_404 :: env where
  "env_404 = env_ok\<lparr>http_get := (\<lambda>u. Reply 404 (Inr ''Not Found''))\<rparr>"

definition env_disk_full :: env where
  "env_disk_full = env_ok\<lparr>write_error := (\<lambda>p. Some (WriteFails 2 ''No space left on device''))\<rparr>"

definition dl :: downloader where
  "dl = \<lparr>output_dir = ''out'', max_concurrent = 3\<rparr>"

definition fs_fresh :: fs where
  "fs_fresh = [''out'' \<mapsto> Dir, ''out/fonts'' \<mapsto> Dir, ''out/metadata'' \<mapsto> Dir]"

text \<open>
  The reason of a failed fetch in the specification's words: the status code of a
  response other than 200, or the message of the transport error (raised by the
  request or while the body is read).
\<close>

fun failure_reason :: "string \<Rightarrow> reply \<Rightarrow> log_line option" where
  "failure_reason n (GetRaises msg) = Some (ErrorDownloading n msg)"
| "failure_reason n (Reply status (Inl msg)) =
     (if status = 200 then Some (ErrorDownloading n msg) else Some (FailedHTTP n status))"
| "failure_reason n (Reply status (Inr content)) =
     (if status = 200 then None else Some (FailedHTTP n status))"

text \<open>
  What a task that returned \<open>False\<close> has logged, by the place where it failed. Before
  any request: the directory could not be made, and the message is that of \<open>mkdir\<close>
  (the path is taken by a file, or the environment's error for that path). After the
  one request: the request raised and the message is that of the transport error; the
  status is not 200 and the line carries that status; the reading of the body raised
  and the message is its message; or the body could not be written and the message is
  that of \<open>open\<close> or \<open>write\<close> (the path is a directory, or the environment's fault
  for that path).
\<close>

definition mkdir_messages :: "env \<Rightarrow> downloader \<Rightarrow> string \<Rightarrow> string list" where
  "mkdir_messages e d n =
     ''FileExistsError'' #
     (case mkdir_error e (font_dir d n) of Some msg \<Rightarrow> [msg] | None \<Rightarrow> [])"

definition write_messages :: "env \<Rightarrow> downloader \<Rightarrow> string \<Rightarrow> string list" where
  "write_messages e d n =
     ''IsADirectoryError'' #
     (case write_error e (font_file d n) of
        Some (OpenFails msg) \<Rightarrow> [msg]
      | Some (WriteFails k msg) \<Rightarrow> [msg]
      | None \<Rightarrow> [])"

definition failure_events :: "env \<Rightarrow> downloader \<Rightarrow> string \<Rightarrow> event list \<Rightarrow> bool" where
  "failure_events e d n evs \<longleftrightarrow>
     (\<exists>msg \<in> set (mkdir_messages e d n). evs = [Log (ErrorDownloading n msg)]) \<or>
     (case http_get e (download_url n) of
        GetRaises msg \<Rightarrow> evs = [Get (download_url n), Log (ErrorDownloading n msg)]
      | Reply status body \<Rightarrow>
          if status = 200
          then (case body of
                  Inl msg \<Rightarrow> evs = [Get (download_url n), Log (ErrorDownloading n msg)]
                | Inr content \<Rightarrow>
                    (\<exists>msg \<in> set (write_messages e d n).
                       evs = [Get (download_url n), Log (ErrorDownloading n msg)]))
          else evs = [Get (download_url n), Log (FailedHTTP n status)])"

text \<open>What a task that returned \<open>True\<close> has done: it skipped, or it made its one
  request, logged the size of the body of the 200 response and slept.\<close>

definition success_events :: "env \<Rightarrow> downloader \<Rightarrow> string \<Rightarrow> event list \<Rightarrow> bool" where
  "success_events e d n evs \<longleftrightarrow>
     evs = [Log (Skipping n)] \<or>
     (case http_get e (download_url n) of
        Reply status (Inr content) \<Rightarrow>
          status = 200 \<and>
          evs = [Get (download_url n), Log (Downloaded n (length content)), Sleep]
      | _ \<Rightarrow> False)"

text \<open>The events of a task, by where it stands.\<close>

fun job_events :: "env \<Rightarrow> downloader \<Rightarrow> string \<times> job_phase \<times> event list \<Rightarrow> bool" where
  "job_events e d (n, Pending, evs) \<longleftrightarrow> evs = []"
| "job_events e d (n, Requested, evs) \<longleftrightarrow> evs = [Get (download_url n)]"
| "job_events e d (n, Sleeping, evs) \<longleftrightarrow> success_events e d n evs"
| "job_events e d (n, Returned r, evs) \<longleftrightarrow>
     (if r then success_events e d n evs else failure_events e d n evs)"




text \<open>The tally: \<open>results\<close> holds as many \<open>True\<close> as there are tasks that returned
  \<open>True\<close>, and as many \<open>False\<close> as there are tasks that returned \<open>False\<close>.\<close>

definition returned :: "bool \<Rightarrow> string \<times> job_phase \<times> event list \<Rightarrow> bool" where
  "returned r j \<longleftrightarrow> fst (snd j) = Returned r"

definition tally :: "fetch \<Rightarrow> bool" where
  "tally s \<longleftrightarrow>
     length (filter (\<lambda>r. r) (results s)) = length (filter (returned True) (jobs s)) \<and>
     length (filter (\<lambda>r. \<not> r) (results s)) = length (filter (returned False) (jobs s))"


text \<open>
  The schedule that lets the tasks from the \<open>k\<close>-th up to the \<open>n\<close>-th run one after
  the other, each to its end; and the runs in which the semaphore stands at \<open>c\<close>, the
  tasks before the \<open>k\<close>-th have returned and the others are pending.
\<close>

definition one_by_one :: "nat \<Rightarrow> nat \<Rightarrow> fetch_action list" where
  "one_by_one k n = concat (map (\<lambda>i. [StartTask i, ReplyArrives i, SleepEnds i]) [k..<n])"

definition served :: "nat \<Rightarrow> nat \<Rightarrow> fetch \<Rightarrow> bool" where
  "served c k s \<longleftrightarrow>
     slots s = c \<and>
     (\<forall>j < length (jobs s). if j < k then has_returned (jobs s ! j)
                               else fst (snd (jobs s ! j)) = Pending)"

text \<open>The archive of \<open>bar\<close> is there already.\<close>

definition fs_bar :: fs where
  "fs_bar = fs_fresh(''out/fonts/bar'' \<mapsto> Dir, ''out/fonts/bar/bar.zip'' \<mapsto> File ''PK34'')"

text \<open>The file system after a run that downloaded \<open>foo\<close>, and after one in which the
  fetch of \<open>foo\<close> failed.\<close>

definition fs_foo :: fs where
  "fs_foo = fs_fresh(''out/metadata/font-list.json'' \<mapsto> File ''foo'',
                     ''out/fonts/foo'' \<mapsto> Dir,
                     ''out/fonts/foo/foo.zip'' \<mapsto> File ''PK34'')"

definition fs_foo_dir :: fs where
  "fs_foo_dir = fs_fresh(''out/metadata/font-list.json'' \<mapsto> File ''foo'',
                         ''out/fonts/foo'' \<mapsto> Dir)"





definition env_foo_404 :: env where
  "env_foo_404 =
     env_ok\<lparr>http_get := (\<lambda>u. if u = ''https://api.fontshare.com/v2/fonts/download/foo''
                             then Reply 404 (Inr ''Not Found'') else Reply 200 (Inr ''PK34''))\<rparr>"


text \<open>
  The chain in the specification's words. Each strategy comes with whether it is
  privileged, whether its copy-and-register sequence completes, and the events of its
  attempt. A privileged strategy is passed over without an attempt when privilege is
  absent; the first attempted strategy that completes ends the chain with success and
  nothing after it is attempted; when none completes the chain fails, the events of the
  last attempted strategy, which end with its error, coming last.
\<close>

fun strategy_chain :: "bool \<Rightarrow> (bool \<times> bool \<times> os_event list) list \<Rightarrow> bool \<times> os_event list" where
  "strategy_chain privilege [] = (False, [])"
| "strategy_chain privilege ((privileged, ok, evs) # rest) =
     (if privileged \<and> \<not> privilege then strategy_chain privilege rest
      else if ok then (True, evs)
      else (case strategy_chain privilege rest of (r, evs') \<Rightarrow> (r, evs @ evs')))"

text \<open>A Windows machine whose font directory can be written to while the fonts key
  under \<open>HKEY_LOCAL_MACHINE\<close> cannot be opened, the user not being an administrator.\<close>

definition os_no_hklm :: os where
  "os_no_hklm =
     \<lparr>os_type = ''windows'', is_admin = False, windll_error = None, winreg_error = None,
      copy2_error = (\<lambda>src dst. None),
      open_key_error = (\<lambda>h k. if h = HKEY_LOCAL_MACHINE then Some ''PermissionError'' else None),
      set_value_error = (\<lambda>h n v. None),
      add_font_resource_w = (\<lambda>p. Inr 1),
      send_message_error = None\<rparr>"

definition fonts_in_d :: installer where
  "fonts_in_d = \<lparr>system_fonts = ''D:/WinDir/Fonts'', user_fonts = ''C:/Users/u/Fonts''\<rparr>"

text \<open>A machine on which the fonts key cannot be opened and \<open>AddFontResourceW\<close> adds
  no font.\<close>

definition os_unregistered :: os where
  "os_unregistered =
     \<lparr>os_type = ''windows'', is_admin = False, windll_error = None, winreg_error = None,
      copy2_error = (\<lambda>src dst. None),
      open_key_error = (\<lambda>h k. Some ''FileNotFoundError''),
      set_value_error = (\<lambda>h n v. None),
      add_font_resource_w = (\<lambda>p. Inr 0),
      send_message_error = None\<rparr>"

text \<open>An archive is installed when font files come out of it and every one of them
  installs.\<close>

definition zip_installs :: "os \<Rightarrow> installer \<Rightarrow> path \<Rightarrow> path \<times> archive \<Rightarrow> bool" where
  "zip_installs w ins temp_dir z =
     (case z of (zip_path, a) \<Rightarrow>
        (case extract_fonts_from_zip temp_dir fi_font_extensions zip_path a of
           (font_files, evs) \<Rightarrow> font_files \<noteq> [] \<and> fst (install_each w ins font_files)))"

text \<open>The same for \<open>run\<close> of \<open>proper_font_installer.py\<close>, with its own list of
  extensions and its own \<open>install_font\<close>; and the number of font files that come out
  of an archive there.\<close>

definition package_installs :: "os \<Rightarrow> installer \<Rightarrow> path \<Rightarrow> path \<times> archive \<Rightarrow> bool" where
  "package_installs w ins temp_dir z =
     (case z of (zip_file, a) \<Rightarrow>
        (case extract_fonts_from_zip temp_dir ttf_otf zip_file a of
           (font_files, evs) \<Rightarrow> font_files \<noteq> [] \<and> fst (install_package w ins font_files)))"

definition package_fonts :: "path \<Rightarrow> path \<times> archive \<Rightarrow> nat" where
  "package_fonts temp_dir z =
     (case z of (zip_file, a) \<Rightarrow>
        length (fst (extract_fonts_from_zip temp_dir ttf_otf zip_file a)))"

text \<open>A machine without registry, where copying a file works; and the archive of
  \<open>baz\<close>, which holds a licence text only.\<close>

definition os_plain :: os where
  "os_plain =
     \<lparr>os_type = ''linux'', is_admin = False, windll_error = Some ''no windll'',
      winreg_error = Some ''No module named winreg'',
      copy2_error = (\<lambda>src dst. None),
      open_key_error = (\<lambda>h k. Some ''no registry''),
      set_value_error = (\<lambda>h n v. Some ''no registry''),
      add_font_resource_w = (\<lambda>p. Inl ''no gdi32''),
      send_message_error = Some ''no user32''\<rparr>"

definition baz_zip :: "path \<times> archive" where
  "baz_zip = (''downloads/fonts/baz/baz.zip'',
              Zip [\<lparr>filename = ''LICENSE.txt'', payload = Inr ''free''\<rparr>])"

text \<open>An entry is readable when extracting it does not raise.\<close>

definition readable :: "zip_entry \<Rightarrow> bool" where
  "readable e = (case payload e of Inl msg \<Rightarrow> False | Inr content \<Rightarrow> True)"

definition content_of :: "zip_entry \<Rightarrow> bytes" where
  "content_of e = (case payload e of Inl msg \<Rightarrow> [] | Inr content \<Rightarrow> content)"

text \<open>An archive whose one font lies two directories deep, with an upper-case
  extension.\<close>

definition nested_zip :: "zip_entry list" where
  "nested_zip =
     [\<lparr>filename = ''Fonts/OTF/Satoshi-Bold.OTF'', payload = Inr ''OTTO''\<rparr>,
      \<lparr>filename = ''README.md'', payload = Inr ''read me''\<rparr>]"

text \<open>The archive of \<open>satoshi\<close>, with one font, and an archive whose one font is a
  web font.\<close>

definition satoshi_zip :: "path \<times> archive" where
  "satoshi_zip = (''downloads/fonts/satoshi/satoshi.zip'', Zip nested_zip)"

definition web_zip :: "path \<times> archive" where
  "web_zip = (''downloads/fonts/web/web.zip'',
              Zip [\<lparr>filename = ''Satoshi-Regular.woff2'', payload = Inr ''wOF2''\<rparr>])"

text \<open>An API that lists one family twice, once by slug and once by name.\<close>

definition web_duplicates :: web where
  "web_duplicates =
     \<lparr>api_get = (\<lambda>u. Answer 200 (Inr (JDict [(''fonts'',
         JList [JDict [(''slug'', JStr ''satoshi'')], JDict [(''name'', JStr ''Satoshi'')]])]))),
      site_get = (\<lambda>u. Raising ''offline''),
      font_list_module = None,
      head_status = (\<lambda>u. None)\<rparr>"

text \<open>A name is normalised when normalising it changes nothing: it has no upper-case
  letter of ASCII and no space.\<close>

definition normalized :: "string \<Rightarrow> bool" where
  "normalized name \<longleftrightarrow> normalize name = name"

section \<open>Properties of \<open>download_font\<close>\<close>



lemma mkdir_keeps:
  "mkdir_exist_ok e fs p = Inr fs1 \<Longrightarrow> fs q = Some v \<Longrightarrow> fs1 q = Some v"
  by (auto simp: mkdir_exist_ok_def split: option.splits node.splits)

lemma mkdir_makes_dir:
  "mkdir_exist_ok e fs p = Inr fs1 \<Longrightarrow> fs1 p = Some Dir"
  by (auto simp: mkdir_exist_ok_def split: option.splits node.splits)

lemma open_wb_write_keeps_dir:
  "open_wb_write e fs p c = (fs2, r) \<Longrightarrow> fs q = Some Dir \<Longrightarrow> fs2 q = Some Dir"
  by (auto simp: open_wb_write_def split: option.splits node.splits write_fault.splits)

lemma open_wb_write_other:
  "open_wb_write e fs p c = (fs2, r) \<Longrightarrow> q \<noteq> p \<Longrightarrow> fs2 q = fs q"
  by (auto simp: open_wb_write_def split: option.splits node.splits write_fault.splits)

lemma download_font_keeps_dir:
  "download_font e d fs n = (r, fs', evs) \<Longrightarrow> fs q = Some Dir \<Longrightarrow> fs' q = Some Dir"
  by (auto simp: download_font_def split: sum.splits if_splits reply.splits prod.splits option.splits
      dest: mkdir_keeps open_wb_write_keeps_dir)

lemma mkdir_keeps_nonempty:
  "mkdir_exist_ok e fs p = Inr fs1 \<Longrightarrow> exists_nonempty e fs q \<Longrightarrow> exists_nonempty e fs1 q"
  by (auto simp: mkdir_exist_ok_def exists_nonempty_def split: option.splits node.splits if_splits)

lemma open_wb_write_keeps_nonempty:
  "open_wb_write e fs p c = (fs2, r) \<Longrightarrow> \<not> exists_nonempty e fs p \<Longrightarrow>
   exists_nonempty e fs q \<Longrightarrow> exists_nonempty e fs2 q"
  by (cases "q = p") (auto simp: exists_nonempty_def dest: open_wb_write_other)

lemma download_font_keeps_nonempty:
  "download_font e d fs n = (r, fs', evs) \<Longrightarrow> exists_nonempty e fs q \<Longrightarrow> exists_nonempty e fs' q"
  by (auto simp: download_font_def split: sum.splits if_splits reply.splits prod.splits option.splits
      dest: mkdir_keeps_nonempty open_wb_write_keeps_nonempty)

lemma download_font_keeps_cached:
  "download_font e d fs n = (r, fs', evs) \<Longrightarrow> cached e d fs m \<Longrightarrow> cached e d fs' m"
  by (auto simp: cached_def dest: download_font_keeps_dir download_font_keeps_nonempty)

lemma download_font_True_cached:
  assumes "download_font e d fs n = (True, fs', evs)" and "Log (Downloaded n 0) \<notin> set evs"
  shows "cached e d fs' n"
proof (cases "mkdir_exist_ok e fs (font_dir d n)")
  case (Inl msg)
  with assms(1) show ?thesis by (simp add: download_font_def)
next
  case (Inr fs1)
  then have dir: "fs1 (font_dir d n) = Some Dir" by (rule mkdir_makes_dir)
  show ?thesis
  proof (cases "exists_nonempty e fs1 (font_file d n)")
    case True
    with Inr assms(1) have "fs' = fs1" by (simp add: download_font_def)
    with dir True show ?thesis by (simp add: cached_def)
  next
    case False
    with Inr assms obtain content where
      w: "open_wb_write e fs1 (font_file d n) content = (fs', None)" and ne: "content \<noteq> []"
      by (auto simp: download_font_def
          split: reply.splits if_splits sum.splits prod.splits option.splits)
    from w have "fs' (font_file d n) = Some (File content)"
      by (auto simp: open_wb_write_def split: option.splits node.splits write_fault.splits)
    moreover from w dir have "fs' (font_dir d n) = Some Dir" by (rule open_wb_write_keeps_dir)
    ultimately show ?thesis using ne by (simp add: cached_def exists_nonempty_def)
  qed
qed

lemmas env_simps = env_ok_def env_404_def env_disk_full_def dl_def fs_fresh_def
  download_font_def mkdir_exist_ok_def exists_nonempty_def open_wb_write_def
  font_file_def font_dir_def fonts_dir_def download_url_def base_url_def


lemma open_wb_write_at:
  "open_wb_write e fs p c = (fs2, r) \<Longrightarrow>
   fs2 p = (case write_error e p of
              None \<Rightarrow> (case fs p of Some Dir \<Rightarrow> Some Dir | _ \<Rightarrow> Some (File c))
            | Some (OpenFails msg) \<Rightarrow> fs p
            | Some (WriteFails k msg) \<Rightarrow>
                (case fs p of Some Dir \<Rightarrow> Some Dir | _ \<Rightarrow> Some (File (take k c))))"
  by (auto simp: open_wb_write_def split: option.splits node.splits write_fault.splits)

lemma length_filter_update:
  "i < length xs \<Longrightarrow>
   length (filter P (xs[i := y])) + (if P (xs ! i) then 1 else 0) =
   length (filter P xs) + (if P y then 1 else 0)"
proof (induction xs arbitrary: i)
  case Nil
  then show ?case by simp
next
  case (Cons x xs)
  show ?case
  proof (cases i)
    case 0
    then show ?thesis by simp
  next
    case (Suc j)
    with Cons.prems have "j < length xs" by simp
    from Cons.IH [OF this] Suc show ?thesis by simp
  qed
qed

section \<open>The tasks of a run\<close>

text \<open>
  A call of \<open>download_font\<close> on its own is the first piece followed by the second on
  the file system the first has left. In a run other tasks may come in between.
\<close>

lemma download_font_phases:
  "download_font e d fs n =
     (case begin_download e d fs n of
        (Some r, fs1, evs) \<Rightarrow> (r, fs1, evs)
      | (None, fs1, evs) \<Rightarrow>
          (case receive_reply e d fs1 n of (r, fs2, evs2) \<Rightarrow> (r, fs2, evs @ evs2)))"
  by (auto simp: download_font_def begin_download_def receive_reply_def
      split: sum.splits reply.splits prod.splits option.splits)

lemma fetch_step_cases [consumes 1, case_names idle returns requests sleeps fails wakes]:
  assumes "fetch_step e d a s = s'"
  obtains
    (idle) "s' = s"
  | (returns) i n evs r fs1 evs1 where
      "i < length (jobs s)" "jobs s ! i = (n, Pending, evs)"
      "begin_download e d (disk s) n = (Some r, fs1, evs1)"
      "s' = s\<lparr>disk := fs1, jobs := (jobs s)[i := (n, Returned r, evs @ evs1)],
               results := results s @ [r]\<rparr>"
  | (requests) i n evs fs1 evs1 where
      "i < length (jobs s)" "jobs s ! i = (n, Pending, evs)"
      "begin_download e d (disk s) n = (None, fs1, evs1)"
      "s' = s\<lparr>slots := slots s - 1, disk := fs1,
               jobs := (jobs s)[i := (n, Requested, evs @ evs1)]\<rparr>"
  | (sleeps) i n evs fs2 evs2 where
      "i < length (jobs s)" "jobs s ! i = (n, Requested, evs)"
      "receive_reply e d (disk s) n = (True, fs2, evs2)"
      "s' = s\<lparr>disk := fs2, jobs := (jobs s)[i := (n, Sleeping, evs @ evs2)]\<rparr>"
  | (fails) i n evs fs2 evs2 where
      "i < length (jobs s)" "jobs s ! i = (n, Requested, evs)"
      "receive_reply e d (disk s) n = (False, fs2, evs2)"
      "s' = s\<lparr>slots := slots s + 1, disk := fs2,
               jobs := (jobs s)[i := (n, Returned False, evs @ evs2)],
               results := results s @ [False]\<rparr>"
  | (wakes) i n evs where
      "i < length (jobs s)" "jobs s ! i = (n, Sleeping, evs)"
      "s' = s\<lparr>slots := slots s + 1, jobs := (jobs s)[i := (n, Returned True, evs)],
               results := results s @ [True]\<rparr>"
proof (cases a)
  case (StartTask i)
  show ?thesis
  proof (cases "i < length (jobs s) \<and> 0 < slots s")
    case False
    with StartTask assms have "s' = s" by auto
    then show ?thesis by (rule idle)
  next
    case True
    obtain n ph evs where j: "jobs s ! i = (n, ph, evs)" by (cases "jobs s ! i") auto
    obtain r fs1 evs1 where b: "begin_download e d (disk s) n = (r, fs1, evs1)"
      by (cases "begin_download e d (disk s) n") auto
    show ?thesis
    proof (cases ph)
      case Pending
      show ?thesis
      proof (cases r)
        case None
        with StartTask True j Pending b assms show ?thesis by (intro requests [of i n evs fs1 evs1]) auto
      next
        case (Some r')
        with StartTask True j Pending b assms show ?thesis by (intro returns [of i n evs r' fs1 evs1]) auto
      qed
    qed (use StartTask True j assms in \<open>auto intro: idle\<close>)
  qed
next
  case (ReplyArrives i)
  show ?thesis
  proof (cases "i < length (jobs s)")
    case False
    with ReplyArrives assms have "s' = s" by auto
    then show ?thesis by (rule idle)
  next
    case True
    obtain n ph evs where j: "jobs s ! i = (n, ph, evs)" by (cases "jobs s ! i") auto
    obtain r fs2 evs2 where b: "receive_reply e d (disk s) n = (r, fs2, evs2)"
      by (cases "receive_reply e d (disk s) n") auto
    show ?thesis
    proof (cases ph)
      case Requested
      show ?thesis
      proof (cases r)
        case True
        with ReplyArrives \<open>i < length (jobs s)\<close> j Requested b assms show ?thesis
          by (intro sleeps [of i n evs fs2 evs2]) auto
      next
        case False
        with ReplyArrives \<open>i < length (jobs s)\<close> j Requested b assms show ?thesis
          by (intro fails [of i n evs fs2 evs2]) auto
      qed
    qed (use ReplyArrives True j assms in \<open>auto intro: idle\<close>)
  qed
next
  case (SleepEnds i)
  show ?thesis
  proof (cases "i < length (jobs s)")
    case False
    with SleepEnds assms have "s' = s" by auto
    then show ?thesis by (rule idle)
  next
    case True
    obtain n ph evs where j: "jobs s ! i = (n, ph, evs)" by (cases "jobs s ! i") auto
    show ?thesis
    proof (cases ph)
      case Sleeping
      with SleepEnds True j assms show ?thesis by (intro wakes [of i n evs]) auto
    qed (use SleepEnds True j assms in \<open>auto intro: idle\<close>)
  qed
qed


lemma exists_nonempty_cong: "fs p = fs' p \<Longrightarrow> exists_nonempty e fs p = exists_nonempty e fs' p"
  by (simp add: exists_nonempty_def)



lemma begin_download_None:
  "begin_download e d fs n = (None, fs1, evs1) \<Longrightarrow>
   fs1 (font_dir d n) = Some Dir \<and> \<not> exists_nonempty e fs1 (font_file d n) \<and>
   evs1 = [Get (download_url n)]"
  by (auto simp: begin_download_def split: sum.splits if_splits dest: mkdir_makes_dir)

lemma begin_download_True:
  "begin_download e d fs n = (Some True, fs1, evs1) \<Longrightarrow>
   cached e d fs1 n \<and> evs1 = [Log (Skipping n)]"
  by (auto simp: begin_download_def cached_def split: sum.splits if_splits dest: mkdir_makes_dir)




lemma receive_reply_True:
  "receive_reply e d fs n = (True, fs2, evs2) \<Longrightarrow>
   \<exists>content. http_get e (download_url n) = Reply 200 (Inr content) \<and>
     fs2 (font_file d n) = Some (File content) \<and>
     evs2 = [Log (Downloaded n (length content)), Sleep]"
  by (auto simp: receive_reply_def open_wb_write_def
      split: reply.splits sum.splits if_splits option.splits node.splits write_fault.splits)














lemma begin_download_False:
  "begin_download e d fs n = (Some False, fs1, evs1) \<Longrightarrow>
   \<exists>msg \<in> set (mkdir_messages e d n). evs1 = [Log (ErrorDownloading n msg)]"
  by (auto simp: begin_download_def mkdir_exist_ok_def mkdir_messages_def
      split: sum.splits if_splits option.splits node.splits)

lemma receive_reply_False:
  "receive_reply e d fs n = (False, fs2, evs2) \<Longrightarrow>
   failure_events e d n ([Get (download_url n)] @ evs2)"
  by (auto simp: receive_reply_def open_wb_write_def failure_events_def write_messages_def
      split: reply.splits sum.splits if_splits option.splits node.splits write_fault.splits)

lemma fetch_step_jobs:
  assumes inv: "\<forall>j \<in> set (jobs s). P j"
    and returns: "\<And>n evs r fs fs1 evs1. P (n, Pending, evs) \<Longrightarrow>
       begin_download e d fs n = (Some r, fs1, evs1) \<Longrightarrow> P (n, Returned r, evs @ evs1)"
    and requests: "\<And>n evs fs fs1 evs1. P (n, Pending, evs) \<Longrightarrow>
       begin_download e d fs n = (None, fs1, evs1) \<Longrightarrow> P (n, Requested, evs @ evs1)"
    and sleeps: "\<And>n evs fs fs2 evs2. P (n, Requested, evs) \<Longrightarrow>
       receive_reply e d fs n = (True, fs2, evs2) \<Longrightarrow> P (n, Sleeping, evs @ evs2)"
    and fails: "\<And>n evs fs fs2 evs2. P (n, Requested, evs) \<Longrightarrow>
       receive_reply e d fs n = (False, fs2, evs2) \<Longrightarrow> P (n, Returned False, evs @ evs2)"
    and wakes: "\<And>n evs. P (n, Sleeping, evs) \<Longrightarrow> P (n, Returned True, evs)"
  shows "\<forall>j \<in> set (jobs (fetch_step e d a s)). P j"
proof -
  obtain s' where s': "fetch_step e d a s = s'" by simp
  have upd: "\<forall>j \<in> set (xs[i := y]). P j" if "P y" and "xs = jobs s" for y i xs
    using that inv set_update_subset_insert [of xs i y] by auto
  have old: "P (jobs s ! i)" if "i < length (jobs s)" for i
    using inv that by simp
  from s' have "\<forall>j \<in> set (jobs s'). P j"
  proof (cases rule: fetch_step_cases)
    case idle
    with inv show ?thesis by simp
  next
    case (returns i n evs r fs1 evs1)
    from old [OF returns(1)] returns(2) have "P (n, Pending, evs)" by simp
    then have "P (n, Returned r, evs @ evs1)" using returns(3) by (rule assms(2))
    with returns(4) show ?thesis by (simp add: upd)
  next
    case (requests i n evs fs1 evs1)
    from old [OF requests(1)] requests(2) have "P (n, Pending, evs)" by simp
    then have "P (n, Requested, evs @ evs1)" using requests(3) by (rule assms(3))
    with requests(4) show ?thesis by (simp add: upd)
  next
    case (sleeps i n evs fs2 evs2)
    from old [OF sleeps(1)] sleeps(2) have "P (n, Requested, evs)" by simp
    then have "P (n, Sleeping, evs @ evs2)" using sleeps(3) by (rule assms(4))
    with sleeps(4) show ?thesis by (simp add: upd)
  next
    case (fails i n evs fs2 evs2)
    from old [OF fails(1)] fails(2) have "P (n, Requested, evs)" by simp
    then have "P (n, Returned False, evs @ evs2)" using fails(3) by (rule assms(5))
    with fails(4) show ?thesis by (simp add: upd)
  next
    case (wakes i n evs)
    from old [OF wakes(1)] wakes(2) have "P (n, Sleeping, evs)" by simp
    then have "P (n, Returned True, evs)" by (rule assms(6))
    with wakes(3) show ?thesis by (simp add: upd)
  qed
  with s' show ?thesis by simp
qed

lemma fetch_step_events:
  assumes "\<forall>j \<in> set (jobs s). job_events e d j"
  shows "\<forall>j \<in> set (jobs (fetch_step e d a s)). job_events e d j"
  using assms
proof (rule fetch_step_jobs)
  fix n evs r fs fs1 evs1
  assume "job_events e d (n, Pending, evs)" and "begin_download e d fs n = (Some r, fs1, evs1)"
  then show "job_events e d (n, Returned r, evs @ evs1)"
    by (cases r) (auto dest: begin_download_False begin_download_True
        simp: failure_events_def success_events_def)
next
  fix n evs fs fs1 evs1
  assume "job_events e d (n, Pending, evs)" and "begin_download e d fs n = (None, fs1, evs1)"
  then show "job_events e d (n, Requested, evs @ evs1)"
    by (auto dest: begin_download_None)
next
  fix n evs fs fs2 evs2
  assume "job_events e d (n, Requested, evs)" and "receive_reply e d fs n = (False, fs2, evs2)"
  then show "job_events e d (n, Returned False, evs @ evs2)"
    by (auto dest: receive_reply_False)
next
  fix n evs fs fs2 evs2
  assume "job_events e d (n, Requested, evs)" and "receive_reply e d fs n = (True, fs2, evs2)"
  then show "job_events e d (n, Sleeping, evs @ evs2)"
    by (auto dest: receive_reply_True simp: success_events_def)
qed simp_all

lemma fetch_run_events:
  "\<forall>j \<in> set (jobs s). job_events e d j \<Longrightarrow>
   \<forall>j \<in> set (jobs (fetch_run e d as s)). job_events e d j"
proof (induction as arbitrary: s)
  case Nil
  then show ?case by simp
next
  case (Cons a as)
  from Cons.prems have "\<forall>j \<in> set (jobs (fetch_step e d a s)). job_events e d j"
    by (rule fetch_step_events)
  then have "\<forall>j \<in> set (jobs (fetch_run e d as (fetch_step e d a s))). job_events e d j"
    by (rule Cons.IH)
  then show ?case by simp
qed

lemma fetch_step_names: "map fst (jobs (fetch_step e d a s)) = map fst (jobs s)"
proof -
  obtain s' where s': "fetch_step e d a s = s'" by simp
  have upd: "map fst (xs[i := (n, y)]) = map fst xs" if "i < length xs" "fst (xs ! i) = n"
    for xs :: "(string \<times> job_phase \<times> event list) list" and i n y
    using that by (simp add: map_update list_update_same_conv)
  from s' have "map fst (jobs s') = map fst (jobs s)"
    by (cases rule: fetch_step_cases) (simp_all add: upd)
  with s' show ?thesis by simp
qed

lemma fetch_run_names: "map fst (jobs (fetch_run e d as s)) = map fst (jobs s)"
  by (induction as arbitrary: s) (simp_all add: fetch_step_names)

lemma fetch_step_tally:
  assumes "tally s"
  shows "tally (fetch_step e d a s)"
proof -
  obtain s' where s': "fetch_step e d a s = s'" by simp
  have upd: "length (filter (returned r) ((jobs s)[i := (n, ph', evs')])) =
      length (filter (returned r) (jobs s)) + (if ph' = Returned r then 1 else 0)"
    if "i < length (jobs s)" "jobs s ! i = (n, ph, evs)" "ph \<noteq> Returned r" for i n ph evs ph' evs' r
    using length_filter_update [of i "jobs s" "returned r" "(n, ph', evs')"] that
    by (simp add: returned_def)
  from s' have "tally s'"
  proof (cases rule: fetch_step_cases)
    case idle
    with assms show ?thesis by simp
  next
    case (returns i n evs r fs1 evs1)
    with assms show ?thesis by (cases r) (simp_all add: tally_def upd [of i n Pending evs])
  next
    case (requests i n evs fs1 evs1)
    with assms show ?thesis by (simp add: tally_def upd [of i n Pending evs])
  next
    case (sleeps i n evs fs2 evs2)
    with assms show ?thesis by (simp add: tally_def upd [of i n Requested evs])
  next
    case (fails i n evs fs2 evs2)
    with assms show ?thesis by (simp add: tally_def upd [of i n Requested evs])
  next
    case (wakes i n evs)
    with assms show ?thesis by (simp add: tally_def upd [of i n Sleeping evs])
  qed
  with s' show ?thesis by simp
qed

lemma fetch_run_tally: "tally s \<Longrightarrow> tally (fetch_run e d as s)"
  by (induction as arbitrary: s) (simp_all add: fetch_step_tally)

lemma fetch_init_tally: "tally (fetch_init d fs font_list)"
  by (simp add: tally_def fetch_init_def returned_def filter_map comp_def)







lemma download_all_fonts_Returns:
  assumes "download_all_fonts e d fs font_list schedule = Returns (stats, tasks, fs')"
  obtains fs0 s where
    "open_wb_write e fs (metadata_dir d @ ''/font-list.json'') (json_dump e font_list) = (fs0, None)"
    "s = fetch_run e d schedule (fetch_init d fs0 font_list)"
    "list_all has_returned (jobs s)"
    "stats = [(''total'', int (length font_list)),
              (''success'', int (length (filter (\<lambda>r. r) (results s)))),
              (''failed'', int (length (results s)) - int (length (filter (\<lambda>r. r) (results s))))]"
    "tasks = map (\<lambda>(n, ph, evs). (n, ph = Returned True, evs)) (jobs s)"
    "fs' = disk s"
  using assms
  by (auto simp: download_all_fonts_def Let_def split: prod.splits option.splits if_splits)

lemma task_of_job:
  assumes "(n, r, evs) \<in> set (map (\<lambda>(n, ph, evs). (n, ph = Returned True, evs)) js)"
    and "list_all has_returned js"
  shows "(n, Returned r, evs) \<in> set js"
proof -
  from assms(1) obtain ph where j: "(n, ph, evs) \<in> set js" and r: "r = (ph = Returned True)"
    by auto
  from assms(2) j have "has_returned (n, ph, evs)" by (simp add: list_all_iff)
  then obtain b where "ph = Returned b" by (cases ph) auto
  with r j show ?thesis by auto
qed

lemma download_all_fonts_names:
  assumes "download_all_fonts e d fs font_list schedule = Returns (stats, tasks, fs')"
  shows "map fst tasks = font_list"
proof -
  from assms obtain fs0 s where
    s: "s = fetch_run e d schedule (fetch_init d fs0 font_list)" and
    tasks: "tasks = map (\<lambda>(n, ph, evs). (n, ph = Returned True, evs)) (jobs s)"
    by (rule download_all_fonts_Returns)
  have "map fst (jobs s) = map fst (jobs (fetch_init d fs0 font_list))"
    unfolding s by (rule fetch_run_names)
  also have "\<dots> = font_list" by (simp add: fetch_init_def comp_def)
  finally have js: "map fst (jobs s) = font_list" .
  have "map fst tasks = map fst (jobs s)" unfolding tasks by (induction "jobs s") auto
  with js show ?thesis by simp
qed



lemmas run_simps = download_all_fonts_def fetch_init_def begin_download_def receive_reply_def
  metadata_dir_def fs_bar_def fs_foo_def fs_foo_dir_def env_simps

lemma download_all_fonts_task_events:
  assumes "download_all_fonts e d fs font_list schedule = Returns (stats, tasks, fs')"
    and "(n, r, evs) \<in> set tasks"
  shows "if r then success_events e d n evs else failure_events e d n evs"
proof -
  from assms(1) obtain fs0 s where
    s: "s = fetch_run e d schedule (fetch_init d fs0 font_list)" and
    all: "list_all has_returned (jobs s)" and
    tasks: "tasks = map (\<lambda>(n, ph, evs). (n, ph = Returned True, evs)) (jobs s)"
    by (rule download_all_fonts_Returns)
  have ev: "\<forall>j \<in> set (jobs s). job_events e d j"
    unfolding s by (rule fetch_run_events) (auto simp: fetch_init_def)
  from assms(2) have "(n, Returned r, evs) \<in> set (jobs s)"
    unfolding tasks using all by (rule task_of_job)
  with ev have "job_events e d (n, Returned r, evs)" by blast
  then show ?thesis by simp
qed

text \<open>
  Two tasks for one identifier. When they overlap, both find the archive missing and
  both issue their request; when the second starts after the first has written, it
  skips.
\<close>

lemma overlapping_tasks_both_request:
  "map_outcome (\<lambda>x. fst (snd x))
     (download_all_fonts env_ok dl fs_fresh [''foo'', ''foo'']
        [StartTask 0, StartTask 1, ReplyArrives 0, ReplyArrives 1, SleepEnds 0, SleepEnds 1]) =
     Returns [(''foo'', True, [Get (download_url ''foo''), Log (Downloaded ''foo'' 4), Sleep]),
              (''foo'', True, [Get (download_url ''foo''), Log (Downloaded ''foo'' 4), Sleep])]"
  by (simp add: run_simps)

lemma later_task_skips:
  "map_outcome (\<lambda>x. fst (snd x))
     (download_all_fonts env_ok dl fs_fresh [''foo'', ''foo'']
        [StartTask 0, ReplyArrives 0, StartTask 1, SleepEnds 0]) =
     Returns [(''foo'', True, [Get (download_url ''foo''), Log (Downloaded ''foo'' 4), Sleep]),
              (''foo'', True, [Log (Skipping ''foo'')])]"
  by (simp add: run_simps)

text \<open>With a semaphore of zero no step changes anything, and a run with a font to
  fetch waits whatever the event loop does.\<close>

lemma fetch_step_no_slot:
  assumes "slots s = 0" and "\<forall>j \<in> set (jobs s). fst (snd j) = Pending"
  shows "fetch_step e d a s = s"
proof -
  have p: "fst (snd (jobs s ! i)) = Pending" if "i < length (jobs s)" for i
    using assms(2) that by simp
  show ?thesis
  proof (cases a)
    case (StartTask i)
    with assms(1) show ?thesis by simp
  next
    case (ReplyArrives i)
    then show ?thesis using p [of i]
      by (cases "jobs s ! i") (auto split: job_phase.splits)
  next
    case (SleepEnds i)
    then show ?thesis using p [of i]
      by (cases "jobs s ! i") (auto split: job_phase.splits)
  qed
qed

lemma fetch_run_no_slot:
  assumes "slots s = 0" and "\<forall>j \<in> set (jobs s). fst (snd j) = Pending"
  shows "fetch_run e d as s = s"
  using assms by (induction as) (simp_all add: fetch_step_no_slot)

lemma semaphore_of_zero_waits:
  assumes "max_concurrent d = 0" and "font_list \<noteq> []"
    and "open_wb_write e fs (metadata_dir d @ ''/font-list.json'') (json_dump e font_list) =
           (fs0, None)"
  shows "download_all_fonts e d fs font_list schedule = Unfinished"
proof -
  have "fetch_run e d schedule (fetch_init d fs0 font_list) = fetch_init d fs0 font_list"
    using assms(1) by (intro fetch_run_no_slot) (auto simp: fetch_init_def)
  moreover have "\<not> list_all has_returned (jobs (fetch_init d fs0 font_list))"
    using assms(2) by (cases font_list) (simp_all add: fetch_init_def)
  ultimately show ?thesis using assms(1,3) by (simp add: download_all_fonts_def)
qed

text \<open>With a semaphore above zero and a metadata file that can be written, a run
  returns: it does so when its tasks run one after the other.\<close>

lemma fetch_run_append: "fetch_run e d (as @ bs) s = fetch_run e d bs (fetch_run e d as s)"
  by (induction as arbitrary: s) simp_all

lemma served_update:
  assumes "served c k s" and "k < length (jobs s)" and "has_returned y"
    and "jobs s' = (jobs s)[k := y]" and "slots s' = c"
  shows "served c (k + 1) s'"
  using assms by (auto simp: served_def nth_list_update)

lemma one_task_served:
  assumes s: "served c k s" and c: "0 < c" and k: "k < length (jobs s)"
  shows "served c (k + 1) (fetch_run e d [StartTask k, ReplyArrives k, SleepEnds k] s) \<and>
         length (jobs (fetch_run e d [StartTask k, ReplyArrives k, SleepEnds k] s)) = length (jobs s)"
proof -
  let ?s' = "fetch_run e d [StartTask k, ReplyArrives k, SleepEnds k] s"
  from s k have "fst (snd (jobs s ! k)) = Pending" by (auto simp: served_def)
  then obtain n evs where j: "jobs s ! k = (n, Pending, evs)" by (cases "jobs s ! k") auto
  from s c have sl: "slots s = c" "0 < slots s" by (simp_all add: served_def)
  obtain r fs1 evs1 where b: "begin_download e d (disk s) n = (r, fs1, evs1)"
    by (cases "begin_download e d (disk s) n") auto
  obtain r2 fs2 evs2 where rr: "receive_reply e d fs1 n = (r2, fs2, evs2)"
    by (cases "receive_reply e d fs1 n") auto
  have "\<exists>y. has_returned y \<and> jobs ?s' = (jobs s)[k := y] \<and> slots ?s' = c"
  proof (cases r)
    case (Some r')
    with b j k sl have "jobs ?s' = (jobs s)[k := (n, Returned r', evs @ evs1)] \<and> slots ?s' = c"
      by simp
    then show ?thesis by (intro exI [of _ "(n, Returned r', evs @ evs1)"]) simp
  next
    case None
    show ?thesis
    proof (cases r2)
      case True
      with None b rr j k sl
      have "jobs ?s' = (jobs s)[k := (n, Returned True, evs @ evs1 @ evs2)] \<and> slots ?s' = c"
        by simp
      then show ?thesis by (intro exI [of _ "(n, Returned True, evs @ evs1 @ evs2)"]) simp
    next
      case False
      with None b rr j k sl
      have "jobs ?s' = (jobs s)[k := (n, Returned False, evs @ evs1 @ evs2)] \<and> slots ?s' = c"
        by simp
      then show ?thesis by (intro exI [of _ "(n, Returned False, evs @ evs1 @ evs2)"]) simp
    qed
  qed
  then obtain y where y: "has_returned y" "jobs ?s' = (jobs s)[k := y]" "slots ?s' = c"
    by blast
  from s k y have "served c (k + 1) ?s'" by (rule served_update)
  moreover from y(2) have "length (jobs ?s') = length (jobs s)" by simp
  ultimately show ?thesis by simp
qed

lemma one_by_one_served:
  assumes "served c k s" and "0 < c" and "k \<le> length (jobs s)" and "n = length (jobs s)"
  shows "served c n (fetch_run e d (one_by_one k n) s) \<and>
         length (jobs (fetch_run e d (one_by_one k n) s)) = n"
  using assms
proof (induction "n - k" arbitrary: k s)
  case 0
  then show ?case by (simp add: one_by_one_def)
next
  case (Suc m)
  let ?s = "fetch_run e d [StartTask k, ReplyArrives k, SleepEnds k] s"
  from Suc.hyps(2) Suc.prems(3,4) have k: "k < length (jobs s)" by simp
  with Suc.prems(1,2) have 1: "served c (k + 1) ?s" and 2: "length (jobs ?s) = length (jobs s)"
    using one_task_served [of c k s e d] by simp_all
  from Suc.hyps(2) have m: "m = n - (k + 1)" by simp
  from k Suc.prems(4) have "[k..<n] = k # [k + 1..<n]" by (simp add: upt_conv_Cons)
  then have o: "one_by_one k n = [StartTask k, ReplyArrives k, SleepEnds k] @ one_by_one (k + 1) n"
    by (simp add: one_by_one_def)
  from Suc.hyps(1) [OF m 1 Suc.prems(2)] k 2 Suc.prems(4)
  have "served c n (fetch_run e d (one_by_one (k + 1) n) ?s) \<and>
        length (jobs (fetch_run e d (one_by_one (k + 1) n) ?s)) = n"
    by simp
  then show ?case unfolding o fetch_run_append .
qed

lemma one_by_one_returns:
  assumes "0 < max_concurrent d"
    and "open_wb_write e fs (metadata_dir d @ ''/font-list.json'') (json_dump e font_list) =
           (fs0, None)"
  shows "\<exists>stats tasks fs'.
           download_all_fonts e d fs font_list (one_by_one 0 (length font_list)) =
             Returns (stats, tasks, fs')"
proof -
  let ?init = "fetch_init d fs0 font_list"
  let ?final = "fetch_run e d (one_by_one 0 (length font_list)) ?init"
  have 1: "served (nat (max_concurrent d)) 0 ?init" by (simp add: served_def fetch_init_def)
  from assms(1) have 2: "0 < nat (max_concurrent d)" by simp
  have 3: "0 \<le> length (jobs ?init)" by simp
  have 4: "length font_list = length (jobs ?init)" by (simp add: fetch_init_def)
  have "served (nat (max_concurrent d)) (length font_list) ?final \<and>
      length (jobs ?final) = length font_list"
    using 1 2 3 4 by (rule one_by_one_served)
  then have "list_all has_returned (jobs ?final)"
    by (auto simp: served_def list_all_length)
  with assms show ?thesis by (simp add: download_all_fonts_def Let_def)
qed

section \<open>C1: skipping what is cached, and the second run\<close>




section \<open>C2: how the archive reaches its path\<close>





section \<open>C3: a failed fetch\<close>

lemma failure_reason_events:
  assumes "failure_reason n (http_get e (download_url n)) = Some reason"
  shows "\<not> success_events e d n evs \<or> evs = [Log (Skipping n)]"
    and "failure_events e d n evs \<Longrightarrow>
      evs = [Get (download_url n), Log reason] \<or>
      (\<exists>msg \<in> set (mkdir_messages e d n). evs = [Log (ErrorDownloading n msg)])"
  using assms
  by (auto simp: success_events_def failure_events_def
      split: reply.splits sum.splits if_splits)

lemma bulk_iteration_failed_fonts:
  "set (failed_fonts st) \<subseteq> set (failed_fonts (bulk_iteration e out len st i n))"
  by (auto simp: bulk_iteration_def Let_def
      split: sum.splits reply.splits prod.splits option.splits)

lemma bulk_loop_failed_fonts:
  "set (failed_fonts st) \<subseteq> set (failed_fonts (bulk_loop e out len i st ns))"
proof (induction ns arbitrary: st i)
  case Nil
  then show ?case by simp
next
  case (Cons n ns)
  have "set (failed_fonts st) \<subseteq> set (failed_fonts (bulk_iteration e out len st i n))"
    by (rule bulk_iteration_failed_fonts)
  also have "\<dots> \<subseteq> set (failed_fonts (bulk_loop e out len (i + 1) (bulk_iteration e out len st i n) ns))"
    by (rule Cons.IH)
  finally show ?case by simp
qed

lemma bulk_loop_append:
  "bulk_loop e out len i st (xs @ ys) =
   bulk_loop e out len (i + length xs) (bulk_loop e out len i st xs) ys"
  by (induction xs arbitrary: st i) simp_all

lemma bulk_iteration_files:
  "files st = files st' \<Longrightarrow>
   files (bulk_iteration e out len st i n) = files (bulk_iteration e out len' st' i' n)"
  by (auto simp: bulk_iteration_def Let_def
      split: sum.splits reply.splits prod.splits option.splits)

lemma bulk_loop_files:
  "files st = files st' \<Longrightarrow>
   files (bulk_loop e out len i st ns) = files (bulk_loop e out len' i' st' ns)"
proof (induction ns arbitrary: st st' i i')
  case Nil
  then show ?case by simp
next
  case (Cons n ns)
  from Cons.prems
  have "files (bulk_iteration e out len st i n) = files (bulk_iteration e out len' st' i' n)"
    by (rule bulk_iteration_files)
  then show ?case by (simp add: Cons.IH)
qed

lemma bulk_iteration_fails:
  assumes "failure_reason n (http_get e (download_url n)) = Some reason"
    and "mkdir_exist_ok e (files st) (out @ ''/'' @ n) = Inr fs1"
    and "\<not> exists_nonempty e fs1 (bulk_font_file out n)"
  shows "bulk_iteration e out len st i n =
      st\<lparr>failed_fonts := failed_fonts st @ [n], files := fs1,
         trace := trace st @ [Get (download_url n), Log reason] @
                  (if i < len then [Sleep] else [])\<rparr>"
  using assms
  by (cases "http_get e (download_url n)")
     (auto simp: bulk_iteration_def split: sum.splits if_splits)

text \<open>
  C3, as the code has it. The answer to the request for an identifier is a failure with
  reason \<open>reason\<close> (a status other than 200, or the message of the error raised). When
  the request is made (the directory could be made and the archive is not there yet),
  \<open>download_font\<close> returns \<open>False\<close>, its events are the one request followed by the
  log line carrying the reason, and nothing is retried. In a run of the class every
  task for the identifier has skipped, or has failed before any request because its
  directory could not be made, or has failed after exactly one request with the line
  carrying the reason; a run that returns has one task for every entry of its list,
  and the class keeps no list of failed identifiers. In the sequential
  script the pass of the loop issues the one request, prints the reason and appends the
  identifier to \<open>failed_fonts\<close>; and the identifier is in \<open>failed_fonts\<close> at the end of
  every run whose list has it at a place where, the fonts before it done, its
  directory can be made and its archive is not there.
\<close>

theorem failed_fetch_one_request_with_reason:
  assumes "failure_reason n (http_get e (download_url n)) = Some reason"
  shows "(mkdir_exist_ok e fs (font_dir d n) = Inr fs1 \<and> \<not> exists_nonempty e fs1 (font_file d n) \<longrightarrow>
            download_font e d fs n = (False, fs1, [Get (download_url n), Log reason])) \<and>
         (download_all_fonts e d fs font_list schedule = Returns (stats, tasks, fs') \<and>
          (n, r, evs) \<in> set tasks \<longrightarrow>
            (r \<and> evs = [Log (Skipping n)]) \<or>
            (\<not> r \<and> evs = [Get (download_url n), Log reason]) \<or>
            (\<not> r \<and> (\<exists>msg \<in> set (mkdir_messages e d n). evs = [Log (ErrorDownloading n msg)]))) \<and>
         (mkdir_exist_ok e (files st) (out @ ''/'' @ n) = Inr fs1 \<and>
          \<not> exists_nonempty e fs1 (bulk_font_file out n) \<longrightarrow>
            bulk_iteration e out len st i n =
              st\<lparr>failed_fonts := failed_fonts st @ [n], files := fs1,
                 trace := trace st @ [Get (download_url n), Log reason] @
                          (if i < len then [Sleep] else [])\<rparr> \<and>
            n \<in> set (failed_fonts (bulk_loop e out len (i + 1) (bulk_iteration e out len st i n) rest))) \<and>
         (mkdir_exist_ok e (files (bulk_download_all_fonts e out fs0 before)) (out @ ''/'' @ n) = Inr fs1 \<and>
          \<not> exists_nonempty e fs1 (bulk_font_file out n) \<longrightarrow>
            n \<in> set (failed_fonts (bulk_download_all_fonts e out fs0 (before @ n # rest)))) \<and>
         (download_all_fonts e d fs font_list schedule = Returns (stats, tasks, fs') \<longrightarrow>
            map fst tasks = font_list)"
proof (intro conjI impI)
  assume "mkdir_exist_ok e fs (font_dir d n) = Inr fs1 \<and> \<not> exists_nonempty e fs1 (font_file d n)"
  with assms show "download_font e d fs n = (False, fs1, [Get (download_url n), Log reason])"
    by (cases "http_get e (download_url n)")
       (auto simp: download_font_def split: sum.splits if_splits)
next
  assume a: "download_all_fonts e d fs font_list schedule = Returns (stats, tasks, fs') \<and>
    (n, r, evs) \<in> set tasks"
  then have ev: "if r then success_events e d n evs else failure_events e d n evs"
    by (blast intro: download_all_fonts_task_events)
  show "(r \<and> evs = [Log (Skipping n)]) \<or>
        (\<not> r \<and> evs = [Get (download_url n), Log reason]) \<or>
        (\<not> r \<and> (\<exists>msg \<in> set (mkdir_messages e d n). evs = [Log (ErrorDownloading n msg)]))"
  proof (cases r)
    case True
    with ev failure_reason_events(1) [OF assms, of d evs] show ?thesis by simp
  next
    case False
    with ev have "failure_events e d n evs" by simp
    from failure_reason_events(2) [OF assms this] False show ?thesis by blast
  qed
next
  assume a: "mkdir_exist_ok e (files st) (out @ ''/'' @ n) = Inr fs1 \<and>
    \<not> exists_nonempty e fs1 (bulk_font_file out n)"
  with assms show b: "bulk_iteration e out len st i n =
      st\<lparr>failed_fonts := failed_fonts st @ [n], files := fs1,
         trace := trace st @ [Get (download_url n), Log reason] @
                  (if i < len then [Sleep] else [])\<rparr>"
    by (simp add: bulk_iteration_fails)
  have "n \<in> set (failed_fonts (bulk_iteration e out len st i n))"
    by (simp add: b)
  then show "n \<in> set (failed_fonts (bulk_loop e out len (i + 1) (bulk_iteration e out len st i n) rest))"
    using bulk_loop_failed_fonts by blast
next
  let ?st0 = "\<lparr>success_count = 0, failed_fonts = [], files = fs0, trace = []\<rparr>"
  let ?len = "length (before @ n # rest)"
  let ?st = "bulk_loop e out ?len 1 ?st0 before"
  assume a: "mkdir_exist_ok e (files (bulk_download_all_fonts e out fs0 before)) (out @ ''/'' @ n) = Inr fs1 \<and>
    \<not> exists_nonempty e fs1 (bulk_font_file out n)"
  have "files ?st = files (bulk_download_all_fonts e out fs0 before)"
    unfolding bulk_download_all_fonts_def by (rule bulk_loop_files) simp
  with a have "mkdir_exist_ok e (files ?st) (out @ ''/'' @ n) = Inr fs1" by simp
  with assms have "bulk_iteration e out ?len ?st (1 + length before) n =
      ?st\<lparr>failed_fonts := failed_fonts ?st @ [n], files := fs1,
         trace := trace ?st @ [Get (download_url n), Log reason] @
                  (if 1 + length before < ?len then [Sleep] else [])\<rparr>"
    using a by (intro bulk_iteration_fails) simp_all
  then have "n \<in> set (failed_fonts (bulk_iteration e out ?len ?st (1 + length before) n))"
    by simp
  then have "n \<in> set (failed_fonts (bulk_loop e out ?len (1 + length before + 1)
      (bulk_iteration e out ?len ?st (1 + length before) n) rest))"
    using bulk_loop_failed_fonts by blast
  then show "n \<in> set (failed_fonts (bulk_download_all_fonts e out fs0 (before @ n # rest)))"
    by (simp add: bulk_download_all_fonts_def bulk_loop_append)
next
  assume "download_all_fonts e d fs font_list schedule = Returns (stats, tasks, fs')"
  then show "map fst tasks = font_list" by (rule download_all_fonts_names)
qed

text \<open>
  The catalog answers 404 for \<open>foo\<close>: a single call, a run of the class in which the
  task of \<open>foo\<close> overlaps the download of \<open>bar\<close>, one pass of the script's loop, and a
  run of the script with \<open>foo\<close> between two fonts that download.
\<close>

theorem failed_fetch_one_request_with_reason_witness:
  "download_font env_404 dl fs_fresh ''foo'' =
     (False, fs_fresh(''out/fonts/foo'' \<mapsto> Dir),
      [Get (download_url ''foo''), Log (FailedHTTP ''foo'' 404)]) \<and>
   map_outcome (\<lambda>x. fst (snd x))
     (download_all_fonts env_foo_404 dl fs_fresh [''bar'', ''foo'']
        [StartTask 0, StartTask 1, ReplyArrives 1, ReplyArrives 0, SleepEnds 0]) =
     Returns [(''bar'', True, [Get (download_url ''bar''), Log (Downloaded ''bar'' 4), Sleep]),
              (''foo'', False, [Get (download_url ''foo''), Log (FailedHTTP ''foo'' 404)])] \<and>
   failed_fonts (bulk_iteration env_404 ''out'' 1
       \<lparr>success_count = 0, failed_fonts = [], files = fs_fresh, trace = []\<rparr> 1 ''foo'') = [''foo''] \<and>
   failed_fonts (bulk_download_all_fonts env_foo_404 ''out'' fs_fresh [''bar'', ''foo'', ''baz'']) =
     [''foo''] \<and>
   success_count (bulk_download_all_fonts env_foo_404 ''out'' fs_fresh [''bar'', ''foo'', ''baz'']) = 2 \<and>
   trace (bulk_download_all_fonts env_foo_404 ''out'' fs_fresh [''bar'', ''foo'', ''baz'']) =
     [Get (download_url ''bar''), Log (Downloaded ''bar'' 4), Sleep,
      Get (download_url ''foo''), Log (FailedHTTP ''foo'' 404), Sleep,
      Get (download_url ''baz''), Log (Downloaded ''baz'' 4)]"
proof -
  let ?st = "\<lparr>success_count = 0, failed_fonts = [], files = fs_fresh, trace = []\<rparr>"
  let ?url = "download_url ''foo''"
  let ?bar = "fs_fresh(''out/bar'' \<mapsto> Dir, ''out/bar/bar.zip'' \<mapsto> File ''PK34'')"
  have r: "failure_reason ''foo'' (http_get env_404 ?url) = Some (FailedHTTP ''foo'' 404)"
    and r': "failure_reason ''foo'' (http_get env_foo_404 ?url) = Some (FailedHTTP ''foo'' 404)"
    by (simp_all add: env_simps env_foo_404_def)
  have m: "mkdir_exist_ok env_404 fs_fresh (font_dir dl ''foo'') = Inr (fs_fresh(''out/fonts/foo'' \<mapsto> Dir))"
    "\<not> exists_nonempty env_404 (fs_fresh(''out/fonts/foo'' \<mapsto> Dir)) (font_file dl ''foo'')"
    by (simp_all add: env_simps)
  have m': "mkdir_exist_ok env_404 (files ?st) (''out'' @ ''/'' @ ''foo'') = Inr (fs_fresh(''out/foo'' \<mapsto> Dir))"
    "\<not> exists_nonempty env_404 (fs_fresh(''out/foo'' \<mapsto> Dir)) (bulk_font_file ''out'' ''foo'')"
    by (simp_all add: env_simps bulk_font_file_def)
  have b: "files (bulk_download_all_fonts env_foo_404 ''out'' fs_fresh [''bar'']) = ?bar"
    by (simp add: bulk_download_all_fonts_def bulk_iteration_def bulk_font_file_def
        env_simps env_foo_404_def)
  have m'': "mkdir_exist_ok env_foo_404
        (files (bulk_download_all_fonts env_foo_404 ''out'' fs_fresh [''bar'']))
        (''out'' @ ''/'' @ ''foo'') = Inr (?bar(''out/foo'' \<mapsto> Dir))"
    "\<not> exists_nonempty env_foo_404 (?bar(''out/foo'' \<mapsto> Dir)) (bulk_font_file ''out'' ''foo'')"
    unfolding b by (simp_all add: env_simps env_foo_404_def bulk_font_file_def)
  obtain stats tasks fs' where
    run: "download_all_fonts env_foo_404 dl fs_fresh [''bar'', ''foo'']
        [StartTask 0, StartTask 1, ReplyArrives 1, ReplyArrives 0, SleepEnds 0] =
      Returns (stats, tasks, fs')" and
    tasks: "tasks =
      [(''bar'', True, [Get (download_url ''bar''), Log (Downloaded ''bar'' 4), Sleep]),
       (''foo'', False, [Get ?url, Log (FailedHTTP ''foo'' 404)])]"
    by (simp add: run_simps env_foo_404_def)
  from tasks have t: "(''foo'', False, [Get ?url, Log (FailedHTTP ''foo'' 404)]) \<in> set tasks"
    by simp
  note T = failed_fetch_one_request_with_reason
  from T [OF r, THEN conjunct1, rule_format, OF conjI [OF m]]
  have 1: "download_font env_404 dl fs_fresh ''foo'' =
     (False, fs_fresh(''out/fonts/foo'' \<mapsto> Dir), [Get ?url, Log (FailedHTTP ''foo'' 404)])" .
  from T [OF r', THEN conjunct2, THEN conjunct1, rule_format, OF conjI [OF run t]]
  have 2: "[Get ?url, Log (FailedHTTP ''foo'' 404)] = [Get ?url, Log (FailedHTTP ''foo'' 404)] \<or>
      (\<exists>msg \<in> set (mkdir_messages env_foo_404 dl ''foo'').
         [Get ?url, Log (FailedHTTP ''foo'' 404)] = [Log (ErrorDownloading ''foo'' msg)])"
    by simp
  from T [OF r, THEN conjunct2, THEN conjunct2, THEN conjunct1, rule_format, OF conjI [OF m'],
      THEN conjunct1, of 1 1]
  have 3: "bulk_iteration env_404 ''out'' 1 ?st 1 ''foo'' =
      ?st\<lparr>failed_fonts := failed_fonts ?st @ [''foo''], files := fs_fresh(''out/foo'' \<mapsto> Dir),
         trace := trace ?st @ [Get ?url, Log (FailedHTTP ''foo'' 404)] @
                  (if (1::nat) < 1 then [Sleep] else [])\<rparr>" .
  from T [OF r', THEN conjunct2, THEN conjunct2, THEN conjunct2, THEN conjunct1, rule_format,
      OF conjI [OF m''], of "[''baz'']"]
  have 4: "''foo'' \<in> set (failed_fonts
      (bulk_download_all_fonts env_foo_404 ''out'' fs_fresh ([''bar''] @ ''foo'' # [''baz''])))" .
  have 5: "failed_fonts (bulk_download_all_fonts env_foo_404 ''out'' fs_fresh [''bar'', ''foo'', ''baz'']) =
        [''foo'']"
    "success_count (bulk_download_all_fonts env_foo_404 ''out'' fs_fresh [''bar'', ''foo'', ''baz'']) = 2"
    "trace (bulk_download_all_fonts env_foo_404 ''out'' fs_fresh [''bar'', ''foo'', ''baz'']) =
       [Get (download_url ''bar''), Log (Downloaded ''bar'' 4), Sleep,
        Get ?url, Log (FailedHTTP ''foo'' 404), Sleep,
        Get (download_url ''baz''), Log (Downloaded ''baz'' 4)]"
    by (simp_all add: bulk_download_all_fonts_def bulk_iteration_def bulk_font_file_def
        env_simps env_foo_404_def)
  from 4 have 6: "''foo'' \<in> set (failed_fonts
      (bulk_download_all_fonts env_foo_404 ''out'' fs_fresh [''bar'', ''foo'', ''baz'']))"
    by simp
  from 3 have 7: "failed_fonts (bulk_iteration env_404 ''out'' 1 ?st 1 ''foo'') = [''foo'']"
    by simp
  from run tasks have 8: "map_outcome (\<lambda>x. fst (snd x))
     (download_all_fonts env_foo_404 dl fs_fresh [''bar'', ''foo'']
        [StartTask 0, StartTask 1, ReplyArrives 1, ReplyArrives 0, SleepEnds 0]) =
     Returns [(''bar'', True, [Get (download_url ''bar''), Log (Downloaded ''bar'' 4), Sleep]),
              (''foo'', False, [Get ?url, Log (FailedHTTP ''foo'' 404)])]"
    by simp
  from T [OF r', THEN conjunct2, THEN conjunct2, THEN conjunct2, THEN conjunct2, rule_format,
      OF run]
  have 9: "map fst tasks = [''bar'', ''foo'']" .
  from 1 8 7 5 6 2 9 show ?thesis by blast
qed

text \<open>
  The claim as stated fails for the class: the catalog answers 404 for \<open>foo\<close>, and
  what the run returns is three numbers. \<open>foo\<close> is counted in \<open>failed\<close> and named in
  no list.
\<close>

theorem class_report_has_no_failed_list:
  "map_outcome fst
     (download_all_fonts env_404 dl fs_fresh [''foo''] [StartTask 0, ReplyArrives 0]) =
     Returns [(''total'', 1), (''success'', 0), (''failed'', 1)]"
  by (simp add: run_simps)

section \<open>C4: the semaphore of \<open>download_all_fonts\<close>\<close>






section \<open>C5: the installation chain\<close>

lemmas path_simps = path_name_def path_stem_def key_path_def user_key_path_def system_key_path_def

text \<open>\<open>proper_font_installer.py\<close> follows the chain: the WinAPI and the user registry
  methods are unprivileged, the system method is privileged.\<close>

lemma install_font_is_strategy_chain:
  "install_font w ins p =
     strategy_chain (is_admin w)
       [(False, install_font_winapi_method w ins p),
        (False, install_font_user_method w ins p),
        (True, install_font_system_method w ins p)]"
  by (cases "install_font_winapi_method w ins p"; cases "install_font_user_method w ins p";
      cases "install_font_system_method w ins p")
     (auto simp: install_font_def split: bool.splits)

text \<open>When that chain fails, the last thing printed is the error of the last method
  attempted: the system method for an administrator, the user registry method
  otherwise.\<close>

lemma user_method_failure_said:
  "\<not> fst (install_font_user_method w ins p) \<Longrightarrow>
   \<exists>evs msg. snd (install_font_user_method w ins p) =
     evs @ [Says (RegistryInstallFailed (path_name p) msg)]"
  by (auto simp: install_font_user_method_def Let_def split: prod.splits option.splits)

lemma system_method_failure_said:
  "\<not> fst (install_font_system_method w ins p) \<Longrightarrow>
   \<exists>evs msg. snd (install_font_system_method w ins p) =
     evs @ [Says (SystemInstallFailed (path_name p) msg)]"
  by (auto simp: install_font_system_method_def Let_def split: prod.splits option.splits)

lemma install_font_failure_reason:
  assumes "\<not> fst (install_font w ins p)"
  shows "\<exists>evs msg. snd (install_font w ins p) =
           evs @ [Says (if is_admin w then SystemInstallFailed (path_name p) msg
                        else RegistryInstallFailed (path_name p) msg)]"
proof -
  obtain r1 e1 where 1: "install_font_winapi_method w ins p = (r1, e1)"
    by (cases "install_font_winapi_method w ins p") auto
  obtain r2 e2 where 2: "install_font_user_method w ins p = (r2, e2)"
    by (cases "install_font_user_method w ins p") auto
  obtain r3 e3 where 3: "install_font_system_method w ins p = (r3, e3)"
    by (cases "install_font_system_method w ins p") auto
  from assms 1 2 3 have f: "\<not> r1" "\<not> r2" "is_admin w \<longrightarrow> \<not> r3"
    by (auto simp: install_font_def split: if_splits bool.splits)
  show ?thesis
  proof (cases "is_admin w")
    case True
    with f 3 obtain evs msg where "e3 = evs @ [Says (SystemInstallFailed (path_name p) msg)]"
      using system_method_failure_said [of w ins p] by auto
    with True f 1 2 3 have "snd (install_font w ins p) =
        (e1 @ e2 @ evs) @ [Says (SystemInstallFailed (path_name p) msg)]"
      by (simp add: install_font_def)
    with True show ?thesis by auto
  next
    case False
    from f 2 obtain evs msg where "e2 = evs @ [Says (RegistryInstallFailed (path_name p) msg)]"
      using user_method_failure_said [of w ins p] by auto
    with False f 1 2 have "snd (install_font w ins p) =
        (e1 @ evs) @ [Says (RegistryInstallFailed (path_name p) msg)]"
      by (simp add: install_font_def)
    with False show ?thesis by auto
  qed
qed

text \<open>\<open>install_fonts.py\<close>: no exception ever leaves \<open>install_font_windows\<close>, so on
  Windows the result of \<open>install_font\<close> is that of the registry method alone.\<close>

lemma install_font_windows_returns:
  "\<exists>b. fst (install_font_windows w ins p) = Inr b"
  by (auto simp: install_font_windows_def Let_def split: option.splits prod.splits)

lemma fi_install_font_windows_no_fallback:
  assumes "os_type w = ''windows''"
  shows "fi_install_font w ins p =
           (case install_font_windows w ins p of (r, evs) \<Rightarrow> (r = Inr True, evs))"
proof -
  obtain b evs where "install_font_windows w ins p = (Inr b, evs)"
    using install_font_windows_returns [of w ins p]
    by (cases "install_font_windows w ins p") auto
  with assms show ?thesis by (simp add: fi_install_font_def)
qed

text \<open>
  C5 asks that the chain try the platform's strategies in order until one completes,
  a privileged one being passed over without privilege. \<open>install_font\<close> of
  \<open>install_fonts.py\<close> does not: on the machine \<open>os_no_hklm\<close> the registry method is attempted
  without privilege and fails at the registry key, and the call returns \<open>False\<close> without
  ever trying the simple copy, which would have completed. The chain of the
  specification, over the same two strategies, ends installed.
\<close>

theorem fallback_to_simple_copy_never_runs:
  "fi_install_font os_no_hklm fonts_in_d ''tmp/Satoshi-Regular.otf'' =
     (False,
      [Copy2 ''tmp/Satoshi-Regular.otf'' ''D:/WinDir/Fonts/Satoshi-Regular.otf'',
       OpenKey HKEY_LOCAL_MACHINE system_key_path,
       Says (FailedOnWindows ''Satoshi-Regular.otf'' ''PermissionError'')]) \<and>
   install_font_simple_copy os_no_hklm fonts_in_d ''tmp/Satoshi-Regular.otf'' =
     (True, [Copy2 ''tmp/Satoshi-Regular.otf'' ''D:/WinDir/Fonts/Satoshi-Regular.otf'']) \<and>
   strategy_chain (is_admin os_no_hklm)
     [(True, fst (install_font_windows os_no_hklm fonts_in_d ''tmp/Satoshi-Regular.otf'') = Inr True,
       snd (install_font_windows os_no_hklm fonts_in_d ''tmp/Satoshi-Regular.otf'')),
      (False, install_font_simple_copy os_no_hklm fonts_in_d ''tmp/Satoshi-Regular.otf'')] =
     (True, [Copy2 ''tmp/Satoshi-Regular.otf'' ''D:/WinDir/Fonts/Satoshi-Regular.otf''])"
  by (simp add: fi_install_font_def install_font_windows_def install_font_simple_copy_def
      os_no_hklm_def fonts_in_d_def path_simps)

section \<open>C6: which entries are extracted, and under which names\<close>

lemma split_path_nonempty: "split_path s \<noteq> []"
  by (induction s) (auto split: list.splits)

lemma split_path_no_slash: "x \<in> set (split_path s) \<Longrightarrow> CHR ''/'' \<notin> set x"
  by (induction s arbitrary: x) (auto split: list.splits if_splits)

lemma path_name_no_slash: "CHR ''/'' \<notin> set (path_name p)"
proof (cases "rev (filter (\<lambda>x. x \<noteq> [] \<and> x \<noteq> ''.'') (split_path p))")
  case Nil
  then show ?thesis by (simp add: path_name_def)
next
  case (Cons x xs)
  then have "x \<in> set (rev (filter (\<lambda>x. x \<noteq> [] \<and> x \<noteq> ''.'') (split_path p)))" by simp
  then have "x \<in> set (split_path p)" by simp
  then have "CHR ''/'' \<notin> set x" by (rule split_path_no_slash)
  with Cons show ?thesis by (simp add: path_name_def)
qed

lemma join_path_Cons: "xs \<noteq> [] \<Longrightarrow> join_path (x # xs) = x @ ''/'' @ join_path xs"
  by (cases xs) auto

lemma join_path_cons_char: "join_path ((c # x) # xs) = c # join_path (x # xs)"
  by (cases xs) auto

lemma join_split_path: "join_path (split_path s) = s"
proof (induction s)
  case Nil
  then show ?case by simp
next
  case (Cons c cs)
  obtain x xs where x: "split_path cs = x # xs"
    using split_path_nonempty [of cs] by (cases "split_path cs") auto
  show ?case
  proof (cases "c = CHR ''/''")
    case True
    with Cons x show ?thesis by (simp add: join_path_Cons)
  next
    case False
    with Cons x show ?thesis by (simp add: join_path_cons_char)
  qed
qed

lemma join_path_snoc:
  "join_path (pre @ [b]) = (if pre = [] then b else join_path pre @ ''/'' @ b)"
proof (induction pre)
  case Nil
  then show ?case by simp
next
  case (Cons x pre)
  then show ?case by (cases pre) (auto simp: join_path_Cons)
qed

lemma split_path_slash: "split_path (a @ CHR ''/'' # b) = split_path a @ split_path b"
proof (induction a)
  case Nil
  then show ?case by simp
next
  case (Cons c cs)
  obtain x xs where x: "split_path cs = x # xs"
    using split_path_nonempty [of cs] by (cases "split_path cs") auto
  with Cons show ?case by simp
qed

lemma split_path_atom: "CHR ''/'' \<notin> set x \<Longrightarrow> split_path x = [x]"
  by (induction x) auto

lemma split_join_path:
  "xs \<noteq> [] \<Longrightarrow> \<forall>x \<in> set xs. CHR ''/'' \<notin> set x \<Longrightarrow> split_path (join_path xs) = xs"
proof (induction xs rule: join_path.induct)
  case 1
  then show ?case by simp
next
  case (2 x)
  then show ?case by (simp add: split_path_atom)
next
  case (3 x y ys)
  then show ?case by (simp add: split_path_slash split_path_atom)
qed

lemma lower_char_slash: "lower_char (CHR ''/'') = CHR ''/''"
  by (simp add: lower_char_def)

lemma ext_within_last:
  assumes s: "s = a @ CHR ''/'' # b" and e: "endswith (lower s) ext"
    and n: "CHR ''/'' \<notin> set ext"
  shows "length ext \<le> length b"
proof (rule ccontr)
  assume "\<not> length ext \<le> length b"
  then have gt: "length b < length ext" by simp
  let ?k = "length s - length ext"
  from e have le: "length ext \<le> length s" and d: "drop ?k (lower s) = ext"
    by (simp_all add: endswith_def lower_def)
  from s gt le have k: "?k \<le> length a" by simp
  from s have at: "lower s ! length a = CHR ''/''"
    by (simp add: lower_def nth_append lower_char_slash)
  from s have la: "length a < length (lower s)" by (simp add: lower_def)
  from k la have "drop ?k (lower s) ! (length a - ?k) = lower s ! length a"
    by simp
  moreover from k la have "length a - ?k < length (drop ?k (lower s))" by simp
  ultimately have "lower s ! length a \<in> set (drop ?k (lower s))"
    by (metis nth_mem)
  with at d n show False by simp
qed

lemma accepted_last_component:
  assumes "is_font exts fn" and "\<forall>ext \<in> set exts. CHR ''/'' \<notin> set ext \<and> 3 \<le> length ext"
  shows "\<exists>pre b. split_path fn = pre @ [b] \<and> 3 \<le> length b"
proof -
  obtain pre b where sp: "split_path fn = pre @ [b]"
    using split_path_nonempty [of fn] by (cases "split_path fn" rule: rev_cases) auto
  from assms obtain ext where ext: "endswith (lower fn) ext" "CHR ''/'' \<notin> set ext" "3 \<le> length ext"
    by (auto simp: is_font_def list_ex_iff)
  have fn: "fn = (if pre = [] then b else join_path pre @ ''/'' @ b)"
    using join_split_path [of fn] sp by (simp add: join_path_snoc)
  have "length ext \<le> length b"
  proof (cases "pre = []")
    case True
    with fn ext(1) show ?thesis by (simp add: endswith_def lower_def)
  next
    case False
    with fn have "fn = join_path pre @ CHR ''/'' # b" by simp
    then show ?thesis using ext(1,2) by (rule ext_within_last)
  qed
  with ext(3) sp show ?thesis by auto
qed

lemma path_name_last:
  "split_path p = pre @ [b] \<Longrightarrow> b \<noteq> [] \<Longrightarrow> b \<noteq> ''.'' \<Longrightarrow> path_name p = b"
  by (simp add: path_name_def)

lemma fi_font_extensions_shape:
  "\<forall>ext \<in> set fi_font_extensions. CHR ''/'' \<notin> set ext \<and> 3 \<le> length ext"
  by (simp add: fi_font_extensions_def)

lemma ttf_otf_shape:
  "\<forall>ext \<in> set ttf_otf. CHR ''/'' \<notin> set ext \<and> 3 \<le> length ext"
  by (simp add: ttf_otf_def)

lemma path_name_extract_path:
  assumes "is_font exts fn" and "\<forall>ext \<in> set exts. CHR ''/'' \<notin> set ext \<and> 3 \<le> length ext"
  shows "path_name (extract_path t fn) = path_name fn"
proof -
  let ?Q = "\<lambda>x. x \<noteq> [] \<and> x \<noteq> ''.'' \<and> x \<noteq> ''..''"
  from assms obtain pre b where sp: "split_path fn = pre @ [b]" and b: "3 \<le> length b"
    using accepted_last_component by blast
  from b have b': "b \<noteq> []" "b \<noteq> ''.''" "b \<noteq> ''..''" by auto
  from sp b' have name: "path_name fn = b" by (simp add: path_name_last)
  from sp b' have arc: "arcname fn = filter ?Q pre @ [b]" by (simp add: arcname_def)
  have "\<forall>x \<in> set (filter ?Q pre @ [b]). CHR ''/'' \<notin> set x"
  proof
    fix x assume "x \<in> set (filter ?Q pre @ [b])"
    then have "x \<in> set (split_path fn)" using sp by auto
    then show "CHR ''/'' \<notin> set x" by (rule split_path_no_slash)
  qed
  then have "split_path (join_path (filter ?Q pre @ [b])) = filter ?Q pre @ [b]"
    by (intro split_join_path) simp_all
  then have "split_path (extract_path t fn) = (split_path t @ filter ?Q pre) @ [b]"
    by (simp add: extract_path_def arc split_path_slash)
  then have "path_name (extract_path t fn) = b" using b'(1,2) by (rule path_name_last)
  with name show ?thesis by simp
qed

lemma extract_entries_selects:
  "fst (extract_entries t exts entries) =
     map (\<lambda>e. extract_path t (filename e))
       (takeWhile readable (filter (\<lambda>e. is_font exts (filename e)) entries))"
  by (induction entries) (auto simp: readable_def split: sum.splits prod.splits)

lemma extract_all_entries_selects:
  "fst (extract_all_entries u entries) =
     map (\<lambda>e. (u @ ''/'' @ path_name (filename e), content_of e))
       (takeWhile readable (filter (\<lambda>e. is_font ttf_otf (filename e)) entries))"
  by (induction entries) (auto simp: readable_def content_of_def split: sum.splits prod.splits)

text \<open>
  C6, as the code has it. Both extractions go through the entries in the order of the
  archive and take those whose lower-cased file name ends with an extension of the
  script's list, up to the first of them that cannot be read. \<open>extract_all_fonts.py\<close>
  writes each under its base name, which never contains a slash. \<open>install_fonts.py\<close>
  extracts each into the temporary directory at the entry's own path (without empty,
  \<open>.\<close> and \<open>..\<close> components); the directories of the archive are dropped on
  installation only: the base name of the extracted path is the base name of the entry,
  and the file is copied to the font directory under that name.
\<close>

theorem extraction_by_extension_install_by_base_name:
  "fst (extract_all_entries u entries) =
     map (\<lambda>e. (u @ ''/'' @ path_name (filename e), content_of e))
       (takeWhile readable (filter (\<lambda>e. is_font ttf_otf (filename e)) entries)) \<and>
   CHR ''/'' \<notin> set (path_name fn) \<and>
   fst (extract_fonts_from_zip t fi_font_extensions zp (Zip entries)) =
     map (\<lambda>e. extract_path t (filename e))
       (takeWhile readable (filter (\<lambda>e. is_font fi_font_extensions (filename e)) entries)) \<and>
   (is_font fi_font_extensions fn \<longrightarrow>
      path_name (extract_path t fn) = path_name fn \<and>
      install_font_simple_copy w ins (extract_path t fn) =
        (case copy2_error w (extract_path t fn) (system_fonts ins @ ''/'' @ path_name fn) of
           None \<Rightarrow> (True, [Copy2 (extract_path t fn) (system_fonts ins @ ''/'' @ path_name fn)])
         | Some msg \<Rightarrow>
             (False, [Copy2 (extract_path t fn) (system_fonts ins @ ''/'' @ path_name fn),
                      Says (FailedToCopy (path_name fn) msg)])))"
proof (intro conjI impI)
  show "fst (extract_all_entries u entries) =
     map (\<lambda>e. (u @ ''/'' @ path_name (filename e), content_of e))
       (takeWhile readable (filter (\<lambda>e. is_font ttf_otf (filename e)) entries))"
    by (rule extract_all_entries_selects)
  show "CHR ''/'' \<notin> set (path_name fn)" by (rule path_name_no_slash)
  show "fst (extract_fonts_from_zip t fi_font_extensions zp (Zip entries)) =
     map (\<lambda>e. extract_path t (filename e))
       (takeWhile readable (filter (\<lambda>e. is_font fi_font_extensions (filename e)) entries))"
    using extract_entries_selects [of t fi_font_extensions entries]
    by (cases "extract_entries t fi_font_extensions entries")
       (auto simp: extract_fonts_from_zip_def split: option.splits)
next
  assume a: "is_font fi_font_extensions fn"
  then show n: "path_name (extract_path t fn) = path_name fn"
    using fi_font_extensions_shape by (rule path_name_extract_path)
  show "install_font_simple_copy w ins (extract_path t fn) =
        (case copy2_error w (extract_path t fn) (system_fonts ins @ ''/'' @ path_name fn) of
           None \<Rightarrow> (True, [Copy2 (extract_path t fn) (system_fonts ins @ ''/'' @ path_name fn)])
         | Some msg \<Rightarrow>
             (False, [Copy2 (extract_path t fn) (system_fonts ins @ ''/'' @ path_name fn),
                      Says (FailedToCopy (path_name fn) msg)]))"
    by (simp add: install_font_simple_copy_def n Let_def split: option.splits)
qed

text \<open>The font of \<open>nested_zip\<close>: extracted below its two directories, installed and
  written under its base name.\<close>

theorem extraction_by_extension_install_by_base_name_witness:
  "path_name ''tmp/Fonts/OTF/Satoshi-Bold.OTF'' = ''Satoshi-Bold.OTF'' \<and>
   fst (install_font_simple_copy os_plain fonts_in_d ''tmp/Fonts/OTF/Satoshi-Bold.OTF'') \<and>
   snd (install_font_simple_copy os_plain fonts_in_d ''tmp/Fonts/OTF/Satoshi-Bold.OTF'') =
     [Copy2 ''tmp/Fonts/OTF/Satoshi-Bold.OTF'' ''D:/WinDir/Fonts/Satoshi-Bold.OTF''] \<and>
   fst (extract_all_entries ''C:/Users/u/Fonts'' nested_zip) =
     [(''C:/Users/u/Fonts/Satoshi-Bold.OTF'', ''OTTO'')]"
proof -
  let ?fn = "''Fonts/OTF/Satoshi-Bold.OTF''"
  have a: "is_font fi_font_extensions ?fn"
    by (simp add: is_font_def fi_font_extensions_def endswith_def lower_def lower_char_def)
  have p: "extract_path ''tmp'' ?fn = ''tmp/Fonts/OTF/Satoshi-Bold.OTF''"
    by (simp add: extract_path_def arcname_def)
  have n: "path_name ?fn = ''Satoshi-Bold.OTF''" by (simp add: path_name_def)
  have c: "copy2_error os_plain ''tmp/Fonts/OTF/Satoshi-Bold.OTF''
      (system_fonts fonts_in_d @ ''/'' @ ''Satoshi-Bold.OTF'') = None"
    by (simp add: os_plain_def)
  have r: "takeWhile readable (filter (\<lambda>e. is_font ttf_otf (filename e)) nested_zip) =
      [\<lparr>filename = ?fn, payload = Inr ''OTTO''\<rparr>]"
    by (simp add: nested_zip_def readable_def is_font_def ttf_otf_def endswith_def lower_def
        lower_char_def)
  note t = extraction_by_extension_install_by_base_name
    [of "''C:/Users/u/Fonts''" nested_zip ?fn "''tmp''" "''z.zip''" os_plain fonts_in_d]
  from t a have 1: "path_name (extract_path ''tmp'' ?fn) = path_name ?fn" by blast
  from t a have 2: "install_font_simple_copy os_plain fonts_in_d (extract_path ''tmp'' ?fn) =
        (case copy2_error os_plain (extract_path ''tmp'' ?fn)
                (system_fonts fonts_in_d @ ''/'' @ path_name ?fn) of
           None \<Rightarrow> (True, [Copy2 (extract_path ''tmp'' ?fn)
                              (system_fonts fonts_in_d @ ''/'' @ path_name ?fn)])
         | Some msg \<Rightarrow>
             (False, [Copy2 (extract_path ''tmp'' ?fn)
                        (system_fonts fonts_in_d @ ''/'' @ path_name ?fn),
                      Says (FailedToCopy (path_name ?fn) msg)]))" by blast
  from t have 3: "fst (extract_all_entries ''C:/Users/u/Fonts'' nested_zip) =
     map (\<lambda>e. (''C:/Users/u/Fonts'' @ ''/'' @ path_name (filename e), content_of e))
       (takeWhile readable (filter (\<lambda>e. is_font ttf_otf (filename e)) nested_zip))" by blast
  from 1 p n have 4: "path_name ''tmp/Fonts/OTF/Satoshi-Bold.OTF'' = ''Satoshi-Bold.OTF''" by simp
  from 2 p n c have 5: "install_font_simple_copy os_plain fonts_in_d ''tmp/Fonts/OTF/Satoshi-Bold.OTF'' =
      (True, [Copy2 ''tmp/Fonts/OTF/Satoshi-Bold.OTF'' ''D:/WinDir/Fonts/Satoshi-Bold.OTF''])"
    by (simp add: fonts_in_d_def)
  from 3 r n have 6: "fst (extract_all_entries ''C:/Users/u/Fonts'' nested_zip) =
     [(''C:/Users/u/Fonts/Satoshi-Bold.OTF'', ''OTTO'')]"
    by (simp add: content_of_def)
  from 4 5 6 show ?thesis by simp
qed

text \<open>
  The claim as stated fails: the font file that \<open>extract_fonts_from_zip\<close> produces for
  the archive \<open>nested_zip\<close> lies at \<open>tmp/Fonts/OTF/Satoshi-Bold.OTF\<close>, a path with the two
  directories the archive supplied.
\<close>

theorem extracted_path_keeps_archive_directories:
  "extract_fonts_from_zip ''tmp'' fi_font_extensions ''z.zip'' (Zip nested_zip) =
     ([''tmp/Fonts/OTF/Satoshi-Bold.OTF''], [])"
  by (simp add: nested_zip_def extract_fonts_from_zip_def extract_path_def arcname_def
      is_font_def fi_font_extensions_def endswith_def lower_def lower_char_def)

section \<open>C7: an archive without font files\<close>

lemma extract_entries_no_fonts:
  "\<not> list_ex (\<lambda>e. is_font exts (filename e)) entries \<Longrightarrow>
   extract_entries temp_dir exts entries = ([], None)"
  by (induction entries) auto

lemma install_zip_counts:
  "processed (install_zip w ins t st z) = processed st + 1 \<and>
   installed (install_zip w ins t st z) = installed st + (if zip_installs w ins t z then 1 else 0) \<and>
   failed (install_zip w ins t st z) = failed st + (if zip_installs w ins t z then 0 else 1)"
  by (cases z) (auto simp: install_zip_def zip_installs_def split: prod.splits)

lemma foldl_install_zip_counts:
  "installed (foldl (install_zip w ins t) st zs) =
     installed st + int (length (filter (zip_installs w ins t) zs)) \<and>
   failed (foldl (install_zip w ins t) st zs) =
     failed st + int (length (filter (\<lambda>z. \<not> zip_installs w ins t z) zs))"
proof (induction zs arbitrary: st)
  case Nil
  then show ?case by simp
next
  case (Cons z zs)
  show ?case using Cons.IH [of "install_zip w ins t st z"] install_zip_counts [of w ins t st z]
    by simp
qed

lemma install_zip_said: "set (said st) \<subseteq> set (said (install_zip w ins t st z))"
  by (cases z) (auto simp: install_zip_def split: prod.splits)

lemma foldl_install_zip_said:
  "set (said st) \<subseteq> set (said (foldl (install_zip w ins t) st zs))"
proof (induction zs arbitrary: st)
  case Nil
  then show ?case by simp
next
  case (Cons z zs)
  have "set (said st) \<subseteq> set (said (install_zip w ins t st z))" by (rule install_zip_said)
  also have "\<dots> \<subseteq> set (said (foldl (install_zip w ins t) (install_zip w ins t st z) zs))"
    by (rule Cons.IH)
  finally show ?case by simp
qed

lemma run_zip_counts:
  "run_success_count (run_zip w ins t st z) =
     run_success_count st + (if package_installs w ins t z then 1 else 0) \<and>
   total_fonts (run_zip w ins t st z) = total_fonts st + int (package_fonts t z)"
  by (cases z) (auto simp: run_zip_def package_installs_def package_fonts_def split: prod.splits)

lemma foldl_run_zip_counts:
  "run_success_count (foldl (run_zip w ins t) st zs) =
     run_success_count st + int (length (filter (package_installs w ins t) zs)) \<and>
   total_fonts (foldl (run_zip w ins t) st zs) =
     total_fonts st + int (sum_list (map (package_fonts t) zs))"
proof (induction zs arbitrary: st)
  case Nil
  then show ?case by simp
next
  case (Cons z zs)
  show ?case using Cons.IH [of "run_zip w ins t st z"] run_zip_counts [of w ins t st z]
    by simp
qed

lemma run_zip_printed: "set (printed st) \<subseteq> set (printed (run_zip w ins t st z))"
  by (cases z) (auto simp: run_zip_def split: prod.splits)

lemma foldl_run_zip_printed:
  "set (printed st) \<subseteq> set (printed (foldl (run_zip w ins t) st zs))"
proof (induction zs arbitrary: st)
  case Nil
  then show ?case by simp
next
  case (Cons z zs)
  have "set (printed st) \<subseteq> set (printed (run_zip w ins t st z))" by (rule run_zip_printed)
  also have "\<dots> \<subseteq> set (printed (foldl (run_zip w ins t) (run_zip w ins t st z) zs))"
    by (rule Cons.IH)
  finally show ?case by simp
qed

text \<open>
  C7, as the code has it. In \<open>install_all_fonts\<close> of \<open>install_fonts.py\<close> an archive
  that opens and has no entry with one of the five accepted extensions is a failure:
  its pass of the loop logs that no font files were found and adds one to \<open>failed\<close>
  and nothing to \<open>installed\<close>; the line is in the log of every run that has the archive
  in its list, and over a whole run \<open>installed\<close> counts exactly the archives that
  install and \<open>failed\<close> all the others, of which this archive is one. In \<open>run\<close> of
  \<open>proper_font_installer.py\<close>, which accepts \<open>.ttf\<close> and \<open>.otf\<close> only, an archive
  without such an entry is reported by a printed line and passed over: the line is
  among those printed by every run that has the archive in its list, and the archive
  is not a success. That run keeps two tallies, the packages installed and the font
  files met, and none of failures.
\<close>

theorem archive_without_fonts_is_failed:
  "(\<not> list_ex (\<lambda>e. is_font fi_font_extensions (filename e)) entries \<longrightarrow>
      install_zip w ins t stats (zp, Zip entries) =
        stats\<lparr>processed := processed stats + 1, failed := failed stats + 1,
              said := said stats @ [Says (Processing (path_name zp)),
                                    Says (NoFontFilesFound (path_name zp))]\<rparr> \<and>
      \<not> zip_installs w ins t (zp, Zip entries) \<and>
      Says (NoFontFilesFound (path_name zp)) \<in>
        set (said (install_all_fonts w ins t (before @ (zp, Zip entries) # rest)))) \<and>
   installed (install_all_fonts w ins t zips) =
     int (length (filter (zip_installs w ins t) zips)) \<and>
   failed (install_all_fonts w ins t zips) =
     int (length (filter (\<lambda>z. \<not> zip_installs w ins t z) zips)) \<and>
   (\<not> list_ex (\<lambda>e. is_font ttf_otf (filename e)) entries \<longrightarrow>
      run_zip w ins t st (zp, Zip entries) =
        st\<lparr>printed := printed st @ [Says (Installing (path_stem zp)),
                                     Says (NoFontFilesFound (path_stem zp))]\<rparr> \<and>
      \<not> package_installs w ins t (zp, Zip entries) \<and>
      Says (NoFontFilesFound (path_stem zp)) \<in>
        set (printed (run_zips w ins t (before @ (zp, Zip entries) # rest)))) \<and>
   run_success_count (run_zips w ins t zips) =
     int (length (filter (package_installs w ins t) zips)) \<and>
   total_fonts (run_zips w ins t zips) = int (sum_list (map (package_fonts t) zips))"
proof (intro conjI impI)
  assume a: "\<not> list_ex (\<lambda>e. is_font fi_font_extensions (filename e)) entries"
  then have e: "extract_entries t fi_font_extensions entries = ([], None)"
    by (rule extract_entries_no_fonts)
  then show 1: "install_zip w ins t stats (zp, Zip entries) =
        stats\<lparr>processed := processed stats + 1, failed := failed stats + 1,
              said := said stats @ [Says (Processing (path_name zp)),
                                    Says (NoFontFilesFound (path_name zp))]\<rparr>"
    by (simp add: install_zip_def extract_fonts_from_zip_def)
  from e show "\<not> zip_installs w ins t (zp, Zip entries)"
    by (simp add: zip_installs_def extract_fonts_from_zip_def)
  let ?st0 = "\<lparr>processed = 0, installed = 0, failed = 0, said = []\<rparr>"
  let ?st = "foldl (install_zip w ins t) ?st0 before"
  from e have "install_zip w ins t ?st (zp, Zip entries) =
        ?st\<lparr>processed := processed ?st + 1, failed := failed ?st + 1,
            said := said ?st @ [Says (Processing (path_name zp)),
                                Says (NoFontFilesFound (path_name zp))]\<rparr>"
    by (simp add: install_zip_def extract_fonts_from_zip_def)
  then have "Says (NoFontFilesFound (path_name zp)) \<in>
      set (said (install_zip w ins t ?st (zp, Zip entries)))"
    by simp
  then have "Says (NoFontFilesFound (path_name zp)) \<in>
      set (said (foldl (install_zip w ins t) (install_zip w ins t ?st (zp, Zip entries)) rest))"
    using foldl_install_zip_said by blast
  then show "Says (NoFontFilesFound (path_name zp)) \<in>
      set (said (install_all_fonts w ins t (before @ (zp, Zip entries) # rest)))"
    by (simp add: install_all_fonts_def)
next
  show "installed (install_all_fonts w ins t zips) =
      int (length (filter (zip_installs w ins t) zips))"
    using foldl_install_zip_counts [of w ins t _ zips] by (simp add: install_all_fonts_def)
next
  show "failed (install_all_fonts w ins t zips) =
      int (length (filter (\<lambda>z. \<not> zip_installs w ins t z) zips))"
    using foldl_install_zip_counts [of w ins t _ zips] by (simp add: install_all_fonts_def)
next
  assume a: "\<not> list_ex (\<lambda>e. is_font ttf_otf (filename e)) entries"
  then have e: "extract_entries t ttf_otf entries = ([], None)"
    by (rule extract_entries_no_fonts)
  then show "run_zip w ins t st (zp, Zip entries) =
        st\<lparr>printed := printed st @ [Says (Installing (path_stem zp)),
                                     Says (NoFontFilesFound (path_stem zp))]\<rparr>"
    by (simp add: run_zip_def extract_fonts_from_zip_def)
  from e show "\<not> package_installs w ins t (zp, Zip entries)"
    by (simp add: package_installs_def extract_fonts_from_zip_def)
  let ?st0 = "\<lparr>run_success_count = 0, total_fonts = 0, printed = []\<rparr>"
  let ?st = "foldl (run_zip w ins t) ?st0 before"
  from e have "run_zip w ins t ?st (zp, Zip entries) =
        ?st\<lparr>printed := printed ?st @ [Says (Installing (path_stem zp)),
                                       Says (NoFontFilesFound (path_stem zp))]\<rparr>"
    by (simp add: run_zip_def extract_fonts_from_zip_def)
  then have "Says (NoFontFilesFound (path_stem zp)) \<in>
      set (printed (run_zip w ins t ?st (zp, Zip entries)))"
    by simp
  then have "Says (NoFontFilesFound (path_stem zp)) \<in>
      set (printed (foldl (run_zip w ins t) (run_zip w ins t ?st (zp, Zip entries)) rest))"
    using foldl_run_zip_printed by blast
  then show "Says (NoFontFilesFound (path_stem zp)) \<in>
      set (printed (run_zips w ins t (before @ (zp, Zip entries) # rest)))"
    by (simp add: run_zips_def)
next
  show "run_success_count (run_zips w ins t zips) =
      int (length (filter (package_installs w ins t) zips))"
    using foldl_run_zip_counts [of w ins t _ zips] by (simp add: run_zips_def)
next
  show "total_fonts (run_zips w ins t zips) = int (sum_list (map (package_fonts t) zips))"
    using foldl_run_zip_counts [of w ins t _ zips] by (simp add: run_zips_def)
qed

text \<open>
  Three archives in one run: \<open>satoshi\<close> with one font, \<open>web\<close> with a web font only,
  and \<open>baz\<close> with a licence text only. \<open>install_all_fonts\<close> installs the first two
  and counts \<open>baz\<close> as failed; \<open>run\<close> installs \<open>satoshi\<close> and reports the other two.
\<close>

theorem archive_without_fonts_is_failed_witness:
  "processed (install_all_fonts os_plain fonts_in_d ''tmp'' [satoshi_zip, baz_zip, web_zip]) = 3 \<and>
   installed (install_all_fonts os_plain fonts_in_d ''tmp'' [satoshi_zip, baz_zip, web_zip]) = 2 \<and>
   failed (install_all_fonts os_plain fonts_in_d ''tmp'' [satoshi_zip, baz_zip, web_zip]) = 1 \<and>
   Says (NoFontFilesFound ''baz.zip'') \<in>
     set (said (install_all_fonts os_plain fonts_in_d ''tmp'' [satoshi_zip, baz_zip, web_zip])) \<and>
   run_zips os_no_hklm fonts_in_d ''tmp'' [satoshi_zip, baz_zip, web_zip] =
     \<lparr>run_success_count = 1, total_fonts = 1,
      printed = [Says (Installing ''satoshi''),
                 Copy2 ''tmp/Fonts/OTF/Satoshi-Bold.OTF'' ''C:/Users/u/Fonts/Satoshi-Bold.OTF'',
                 AddFontResourceW ''C:/Users/u/Fonts/Satoshi-Bold.OTF'', SendMessageW,
                 Says (InstalledFont ''Satoshi-Bold.OTF''),
                 Says (Installing ''baz''), Says (NoFontFilesFound ''baz''),
                 Says (Installing ''web''), Says (NoFontFilesFound ''web'')]\<rparr>"
proof -
  let ?entries = "[\<lparr>filename = ''LICENSE.txt'', payload = Inr ''free''\<rparr>]"
  let ?web = "[\<lparr>filename = ''Satoshi-Regular.woff2'', payload = Inr ''wOF2''\<rparr>]"
  let ?zp = "''downloads/fonts/baz/baz.zip''"
  let ?wp = "''downloads/fonts/web/web.zip''"
  let ?zips = "[satoshi_zip, baz_zip, web_zip]"
  note T = archive_without_fonts_is_failed
  have h: "\<not> list_ex (\<lambda>e. is_font fi_font_extensions (filename e)) ?entries"
    and h': "\<not> list_ex (\<lambda>e. is_font ttf_otf (filename e)) ?entries"
    and h'': "\<not> list_ex (\<lambda>e. is_font ttf_otf (filename e)) ?web"
    by (simp_all add: is_font_def fi_font_extensions_def ttf_otf_def endswith_def lower_def
        lower_char_def)
  have n: "path_name ?zp = ''baz.zip''" "path_stem ?zp = ''baz''" "path_stem ?wp = ''web''"
    by (simp_all add: path_name_def path_stem_def Let_def)
  have z: "?zips = [satoshi_zip] @ (?zp, Zip ?entries) # [web_zip]"
    "?zips = [satoshi_zip, baz_zip] @ (?wp, Zip ?web) # []"
    by (simp_all add: baz_zip_def web_zip_def)
  from T [THEN conjunct1, rule_format, OF h, of os_plain fonts_in_d "''tmp''" _ ?zp
      "[satoshi_zip]" "[web_zip]"]
  have 1: "\<not> zip_installs os_plain fonts_in_d ''tmp'' baz_zip"
    "Says (NoFontFilesFound ''baz.zip'') \<in> set (said (install_all_fonts os_plain fonts_in_d ''tmp'' ?zips))"
    by (simp_all add: n baz_zip_def web_zip_def)
  have 2: "zip_installs os_plain fonts_in_d ''tmp'' satoshi_zip"
    "zip_installs os_plain fonts_in_d ''tmp'' web_zip"
    by (simp_all add: zip_installs_def satoshi_zip_def web_zip_def nested_zip_def
        extract_fonts_from_zip_def is_font_def fi_font_extensions_def endswith_def lower_def
        lower_char_def fi_install_font_def install_font_simple_copy_def os_plain_def Let_def)
  from T [THEN conjunct2, THEN conjunct1, of os_plain fonts_in_d "''tmp''" ?zips] 1 2
  have 3: "installed (install_all_fonts os_plain fonts_in_d ''tmp'' ?zips) = 2" by simp
  from T [THEN conjunct2, THEN conjunct2, THEN conjunct1, of os_plain fonts_in_d "''tmp''" ?zips] 1 2
  have 4: "failed (install_all_fonts os_plain fonts_in_d ''tmp'' ?zips) = 1" by simp
  have 5: "processed (install_all_fonts os_plain fonts_in_d ''tmp'' ?zips) = 3"
    by (simp add: install_all_fonts_def install_zip_counts)
  note R = T [THEN conjunct2, THEN conjunct2, THEN conjunct2]
  from R [THEN conjunct1, rule_format, OF h', of os_no_hklm fonts_in_d "''tmp''" _ ?zp
      "[satoshi_zip]" "[web_zip]"]
  have 6: "\<not> package_installs os_no_hklm fonts_in_d ''tmp'' baz_zip"
    "Says (NoFontFilesFound ''baz'') \<in> set (printed (run_zips os_no_hklm fonts_in_d ''tmp'' ?zips))"
    by (simp_all add: n baz_zip_def web_zip_def)
  from R [THEN conjunct1, rule_format, OF h'', of os_no_hklm fonts_in_d "''tmp''" _ ?wp
      "[satoshi_zip, baz_zip]" "[]"]
  have 7: "\<not> package_installs os_no_hklm fonts_in_d ''tmp'' web_zip"
    "Says (NoFontFilesFound ''web'') \<in> set (printed (run_zips os_no_hklm fonts_in_d ''tmp'' ?zips))"
    by (simp_all add: n baz_zip_def web_zip_def)
  have 8: "run_zips os_no_hklm fonts_in_d ''tmp'' ?zips =
     \<lparr>run_success_count = 1, total_fonts = 1,
      printed = [Says (Installing ''satoshi''),
                 Copy2 ''tmp/Fonts/OTF/Satoshi-Bold.OTF'' ''C:/Users/u/Fonts/Satoshi-Bold.OTF'',
                 AddFontResourceW ''C:/Users/u/Fonts/Satoshi-Bold.OTF'', SendMessageW,
                 Says (InstalledFont ''Satoshi-Bold.OTF''),
                 Says (Installing ''baz''), Says (NoFontFilesFound ''baz''),
                 Says (Installing ''web''), Says (NoFontFilesFound ''web'')]\<rparr>"
    by (simp add: run_zips_def run_zip_def satoshi_zip_def baz_zip_def web_zip_def nested_zip_def
        extract_fonts_from_zip_def is_font_def ttf_otf_def endswith_def lower_def lower_char_def
        extract_path_def arcname_def install_font_def install_font_winapi_method_def
        os_no_hklm_def fonts_in_d_def path_name_def path_stem_def Let_def)
  from 5 3 4 1(2) 8 show ?thesis by simp
qed

text \<open>
  The claim as stated fails for \<open>run\<close> of \<open>proper_font_installer.py\<close>: the archive of
  \<open>baz\<close>, alone in the run, is reported and both tallies of the run stay at zero, as
  after a run without archives. There is no tally of failures for it to be counted in.
\<close>

theorem run_keeps_no_failed_tally:
  "run_zips os_no_hklm fonts_in_d ''tmp'' [baz_zip] =
     \<lparr>run_success_count = 0, total_fonts = 0,
      printed = [Says (Installing ''baz''), Says (NoFontFilesFound ''baz'')]\<rparr> \<and>
   run_success_count (run_zips os_no_hklm fonts_in_d ''tmp'' []) = 0 \<and>
   total_fonts (run_zips os_no_hklm fonts_in_d ''tmp'' []) = 0"
  by (simp add: run_zips_def run_zip_def baz_zip_def extract_fonts_from_zip_def is_font_def
      ttf_otf_def endswith_def lower_def lower_char_def path_name_def path_stem_def Let_def)

section \<open>C8: discovery\<close>

text \<open>
  C8 asks that the identifiers discovery returns contain no duplicates, case
  disregarded. \<open>discover_fonts\<close> does not see to that on its first strategy: for the
  API of \<open>web_duplicates\<close>, \<open>_extract_font_names\<close> normalises both entries to \<open>satoshi\<close> and keeps both,
  and the list returned names \<open>satoshi\<close> twice.
\<close>

theorem api_discovery_returns_duplicates:
  "discover_fonts web_duplicates = [''satoshi'', ''satoshi''] \<and>
   \<not> distinct (discover_fonts web_duplicates)"
  by (simp add: discover_fonts_def try_api_discovery_def api_endpoints_def web_duplicates_def
      extract_font_names_def key_in_def subscript_def dict_get_def py_or_def normalize_def
      lower_def lower_char_def)

text \<open>
  The rest of C8 holds on the code: what the API strategy returns is normalised, and
  discovery returns a list whatever fails; with every request raising, it is the
  fallback list.
\<close>

lemma lower_char_idem: "lower_char (lower_char c) = lower_char c"
  by (auto simp: lower_char_def split: option.splits if_splits)

lemma lower_char_space: "lower_char c = CHR '' '' \<longleftrightarrow> c = CHR '' ''"
  by (auto simp: lower_char_def split: option.splits if_splits)

lemma normalize_idem: "normalized (normalize s)"
  by (induction s)
     (auto simp: normalized_def normalize_def lower_def lower_char_idem lower_char_space
        lower_char_def)

lemma names_of_normalized:
  "names_of items = Inr fonts \<Longrightarrow> n \<in> set fonts \<Longrightarrow> normalized n"
proof (induction items arbitrary: fonts)
  case Nil
  then show ?case by simp
next
  case (Cons font rest)
  then show ?case
    by (cases font)
       (auto simp: Let_def normalize_idem split: json.splits sum.splits if_splits)
qed

lemma extract_keys_normalized:
  "extract_keys data keys = Inr fonts \<Longrightarrow> n \<in> set fonts \<Longrightarrow> normalized n"
proof (induction keys arbitrary: fonts)
  case Nil
  then show ?case by simp
next
  case (Cons key keys)
  then show ?case
    by (auto split: sum.splits bool.splits json.splits dest: names_of_normalized)
qed

lemma extract_font_names_normalized:
  "extract_font_names data = Inr fonts \<Longrightarrow> n \<in> set fonts \<Longrightarrow> normalized n"
  unfolding extract_font_names_def by (rule extract_keys_normalized)

lemma try_endpoints_normalized:
  "try_endpoints e endpoints = Some fonts \<Longrightarrow> n \<in> set fonts \<Longrightarrow> normalized n"
proof (induction endpoints)
  case Nil
  then show ?case by simp
next
  case (Cons u us)
  show ?case
  proof (cases "try_endpoints e (u # us) = try_endpoints e us")
    case True
    with Cons show ?thesis by simp
  next
    case False
    then obtain data where "extract_font_names data = Inr fonts"
      using Cons.prems(1)
      by (auto split: http.splits sum.splits if_splits)
    then show ?thesis using Cons.prems(2) by (rule extract_font_names_normalized)
  qed
qed

lemma discover_fonts_without_network:
  assumes "\<And>u. \<exists>msg. api_get e u = Raising msg" and "\<And>u. \<exists>msg. site_get e u = Raising msg"
  shows "discover_fonts e = get_fallback_fonts e"
proof -
  have "try_endpoints e endpoints = None" for endpoints
  proof (induction endpoints)
    case Nil
    then show ?case by simp
  next
    case (Cons u us)
    from assms(1) [of u] obtain msg where "api_get e u = Raising msg" by blast
    with Cons show ?case by simp
  qed
  moreover from assms(2) [of website_url] have "try_website_parsing e = None"
    by (auto simp: try_website_parsing_def)
  ultimately show ?thesis by (simp add: discover_fonts_def try_api_discovery_def)
qed

section \<open>C9: the report of a run\<close>

lemma filter_tasks:
  "filter P (map (\<lambda>(n, ph, evs). (n, ph = Returned True, evs)) js) =
   map (\<lambda>(n, ph, evs). (n, ph = Returned True, evs))
     (filter (\<lambda>(n, ph, evs). P (n, ph = Returned True, evs)) js)"
  by (induction js) auto

text \<open>
  C9, as the code has it. When the run returns, however its tasks have overlapped,
  there is one result for every entry of the input list, in the order of the list. The
  report has three counts, \<open>total\<close>, \<open>success\<close> and \<open>failed\<close>, and \<open>total\<close> is the sum
  of the other two; \<open>success\<close> counts every task that returned \<open>True\<close>, skipped or
  downloaded, and there is no count of skips. The report carries no list of failures;
  each failed task has logged one line, which names its identifier and carries the
  reason of its failure: the status of the response, or the message of the error that
  was raised.
\<close>

theorem run_report_three_counts:
  assumes "download_all_fonts e d fs font_list schedule = Returns (stats, tasks, fs')"
  shows "map fst tasks = font_list \<and>
         stats = [(''total'', int (length font_list)),
                  (''success'', int (length (filter (\<lambda>t. fst (snd t)) tasks))),
                  (''failed'', int (length (filter (\<lambda>t. \<not> fst (snd t)) tasks)))] \<and>
         int (length font_list) =
           int (length (filter (\<lambda>t. fst (snd t)) tasks)) +
           int (length (filter (\<lambda>t. \<not> fst (snd t)) tasks)) \<and>
         (\<forall>t \<in> set tasks. \<not> fst (snd t) \<longrightarrow> failure_events e d (fst t) (snd (snd t)))"
proof -
  from assms obtain fs0 s where
    s: "s = fetch_run e d schedule (fetch_init d fs0 font_list)" and
    all: "list_all has_returned (jobs s)" and
    stats: "stats = [(''total'', int (length font_list)),
              (''success'', int (length (filter (\<lambda>r. r) (results s)))),
              (''failed'', int (length (results s)) - int (length (filter (\<lambda>r. r) (results s))))]" and
    tasks: "tasks = map (\<lambda>(n, ph, evs). (n, ph = Returned True, evs)) (jobs s)"
    by (rule download_all_fonts_Returns)
  have "map fst (jobs s) = map fst (jobs (fetch_init d fs0 font_list))"
    unfolding s by (rule fetch_run_names)
  also have "\<dots> = font_list" by (simp add: fetch_init_def comp_def)
  finally have js: "map fst (jobs s) = font_list" .
  have "map fst tasks = map fst (jobs s)" unfolding tasks by (induction "jobs s") auto
  with js have names: "map fst tasks = font_list" by simp
  then have "length (map fst tasks) = length font_list" by simp
  then have len: "length tasks = length font_list" by simp
  have "tally s" unfolding s by (intro fetch_run_tally fetch_init_tally)
  then have tt: "length (filter (\<lambda>r. r) (results s)) = length (filter (returned True) (jobs s))"
    and tf: "length (filter (\<lambda>r. \<not> r) (results s)) = length (filter (returned False) (jobs s))"
    by (simp_all add: tally_def)
  have succ: "length (filter (\<lambda>t. fst (snd t)) tasks) = length (filter (returned True) (jobs s))"
    unfolding tasks filter_tasks length_map
    by (rule arg_cong [where f = length], rule filter_cong) (auto simp: returned_def)
  have fail: "length (filter (\<lambda>t. \<not> fst (snd t)) tasks) = length (filter (returned False) (jobs s))"
    unfolding tasks filter_tasks length_map
  proof (rule arg_cong [where f = length], rule filter_cong)
    fix j assume "j \<in> set (jobs s)"
    with all have "has_returned j" by (simp add: list_all_iff)
    then show "(case j of (n, ph, evs) \<Rightarrow> \<not> fst (snd (n, ph = Returned True, evs))) = returned False j"
      by (cases j rule: has_returned.cases) (auto simp: returned_def)
  qed simp
  have "length (results s) =
      length (filter (\<lambda>r. r) (results s)) + length (filter (\<lambda>r. \<not> r) (results s))"
    by (simp add: sum_length_filter_compl)
  with tt tf succ fail have res: "int (length (results s)) - int (length (filter (\<lambda>r. r) (results s))) =
      int (length (filter (\<lambda>t. \<not> fst (snd t)) tasks))"
    by simp
  from stats tt succ res have st: "stats = [(''total'', int (length font_list)),
                  (''success'', int (length (filter (\<lambda>t. fst (snd t)) tasks))),
                  (''failed'', int (length (filter (\<lambda>t. \<not> fst (snd t)) tasks)))]"
    by simp
  have "length tasks =
      length (filter (\<lambda>t. fst (snd t)) tasks) + length (filter (\<lambda>t. \<not> fst (snd t)) tasks)"
    by (simp add: sum_length_filter_compl)
  with len have total: "int (length font_list) =
           int (length (filter (\<lambda>t. fst (snd t)) tasks)) +
           int (length (filter (\<lambda>t. \<not> fst (snd t)) tasks))"
    by simp
  have ev: "\<forall>j \<in> set (jobs s). job_events e d j"
    unfolding s by (rule fetch_run_events) (auto simp: fetch_init_def)
  have l: "\<forall>t \<in> set tasks. \<not> fst (snd t) \<longrightarrow> failure_events e d (fst t) (snd (snd t))"
  proof (intro ballI impI)
    fix t assume a: "t \<in> set tasks" and b: "\<not> fst (snd t)"
    from b have "t = (fst t, False, snd (snd t))" by (simp add: prod_eq_iff)
    with a have "(fst t, False, snd (snd t)) \<in> set tasks" by simp
    then have "(fst t, Returned False, snd (snd t)) \<in> set (jobs s)"
      unfolding tasks using all by (rule task_of_job)
    with ev have "job_events e d (fst t, Returned False, snd (snd t))" by blast
    then show "failure_events e d (fst t) (snd (snd t))" by simp
  qed
  from names st total l show ?thesis by blast
qed

text \<open>\<open>bar\<close> is cached and \<open>foo\<close> answers 404; the task of \<open>foo\<close> starts first.\<close>

theorem run_report_three_counts_witness:
  "map_outcome fst
     (download_all_fonts env_404 dl fs_bar [''bar'', ''foo'']
        [StartTask 1, StartTask 0, ReplyArrives 1]) =
     Returns [(''total'', 2), (''success'', 1), (''failed'', 1)] \<and>
   failure_events env_404 dl ''foo'' [Get (download_url ''foo''), Log (FailedHTTP ''foo'' 404)]"
proof -
  let ?tasks = "[(''bar'', True, [Log (Skipping ''bar'')]),
                 (''foo'', False, [Get (download_url ''foo''), Log (FailedHTTP ''foo'' 404)])]"
  obtain stats fs' where
    r: "download_all_fonts env_404 dl fs_bar [''bar'', ''foo'']
          [StartTask 1, StartTask 0, ReplyArrives 1] = Returns (stats, ?tasks, fs')"
    by (simp add: run_simps)
  from run_report_three_counts [OF r] r show ?thesis by simp
qed

text \<open>
  The claim as stated fails: with \<open>bar\<close> cached and \<open>foo\<close> answering 404, the report
  is \<open>total 2, success 1, failed 1\<close>. The skip of \<open>bar\<close> is the one success, no key
  \<open>skipped\<close> exists, and the report names neither \<open>foo\<close> nor its reason.
\<close>

theorem run_report_has_no_skipped_count_or_failed_list:
  "map_outcome fst
     (download_all_fonts env_404 dl fs_bar [''bar'', ''foo'']
        [StartTask 0, StartTask 1, ReplyArrives 1]) =
     Returns [(''total'', 2), (''success'', 1), (''failed'', 1)] \<and>
   map_outcome (\<lambda>x. fst (snd x))
     (download_all_fonts env_404 dl fs_bar [''bar'', ''foo'']
        [StartTask 0, StartTask 1, ReplyArrives 1]) =
     Returns [(''bar'', True, [Log (Skipping ''bar'')]),
              (''foo'', False, [Get (download_url ''foo''), Log (FailedHTTP ''foo'' 404)])] \<and>
   map_of [(''total'', 2::int), (''success'', 1), (''failed'', 1)] ''skipped'' = None"
  by (simp add: run_simps)

section \<open>C10: a copy without registration\<close>

text \<open>In \<open>install_single_font\<close> the copy alone decides; in the methods of
  \<open>proper_font_installer.py\<close> success needs the registration.\<close>

lemma install_single_font_copy_suffices:
  "copy2_error w p (target_dir @ ''/'' @ path_name p) = None \<Longrightarrow>
   fst (install_single_font w ins p target_dir font_name) = True"
  by (simp add: install_single_font_def Let_def split: prod.splits)

lemma winapi_method_needs_registration:
  "fst (install_font_winapi_method w ins p) \<Longrightarrow>
   (\<exists>result. add_font_resource_w w
       ((if is_admin w then system_fonts ins else user_fonts ins) @ ''/'' @ path_name p) = Inr result \<and>
       0 < result) \<and> send_message_error w = None"
  by (auto simp: install_font_winapi_method_def Let_def split: option.splits sum.splits if_splits)

lemma user_method_needs_registration:
  "fst (install_font_user_method w ins p) \<Longrightarrow>
   open_key_error w HKEY_CURRENT_USER user_key_path = None \<and>
   set_value_error w HKEY_CURRENT_USER (path_stem p @ '' (TrueType)'')
     (user_fonts ins @ ''/'' @ path_name p) = None"
  by (auto simp: install_font_user_method_def Let_def split: option.splits prod.splits)

lemma system_method_needs_registration:
  "fst (install_font_system_method w ins p) \<Longrightarrow>
   open_key_error w HKEY_LOCAL_MACHINE system_key_path = None \<and>
   set_value_error w HKEY_LOCAL_MACHINE (path_stem p @ '' (TrueType)'') (path_name p) = None"
  by (auto simp: install_font_system_method_def Let_def split: option.splits prod.splits)

text \<open>
  C10 asks that a strategy whose copy succeeds and whose registration fails report
  failure. \<open>install_single_font\<close> does not: on the machine \<open>os_unregistered\<close> the copy succeeds,
  \<open>register_font_in_registry\<close> and \<open>add_font_resource\<close> both return \<open>False\<close>, and the
  call returns \<open>True\<close>. The WinAPI method of \<open>proper_font_installer.py\<close> fails on the
  same machine.
\<close>

theorem copy_without_registration_reported_as_success:
  "install_single_font os_unregistered fonts_in_d ''tmp/Broken.ttf'' ''C:/Users/u/Fonts'' ''Broken'' =
     (True,
      [Copy2 ''tmp/Broken.ttf'' ''C:/Users/u/Fonts/Broken.ttf'',
       Says (CopiedTo ''C:/Users/u/Fonts/Broken.ttf''),
       OpenKey HKEY_CURRENT_USER system_key_path,
       Says (RegistryRegistrationFailed ''FileNotFoundError''),
       AddFontResourceW ''C:/Users/u/Fonts/Broken.ttf'']) \<and>
   fst (register_font_in_registry os_unregistered ''C:/Users/u/Fonts/Broken.ttf'' ''Broken'' False) = False \<and>
   fst (add_font_resource os_unregistered ''C:/Users/u/Fonts/Broken.ttf'') = False \<and>
   install_font_winapi_method os_unregistered fonts_in_d ''tmp/Broken.ttf'' =
     (False,
      [Copy2 ''tmp/Broken.ttf'' ''C:/Users/u/Fonts/Broken.ttf'',
       AddFontResourceW ''C:/Users/u/Fonts/Broken.ttf'',
       Says (AddFontResourceFailed ''Broken.ttf'')])"
  by (simp add: install_single_font_def register_font_in_registry_def add_font_resource_def
      install_font_winapi_method_def os_unregistered_def fonts_in_d_def path_simps Let_def)

end
